theory Spec2Isabelle
  imports Main "HOL-Library.Sublist" "HOL-Library.Word"
begin

text \<open>
  A model of \<open>main.py\<close>, the LeetCode tool server: the identifier normalizer, the
  GraphQL fetchers and the six tools built on them, with the remote server and the file
  system as parameters, followed by the properties the specification states about them.
\<close>

section \<open>Python strings\<close>

text \<open>
  A Python \<open>str\<close> is a sequence of Unicode code points, so it is modelled as a list of
  code points (natural numbers). \<open>py\<close> turns an ASCII literal into such a list; the
  Chinese literals of \<open>main.py\<close> are written out by code point.
\<close>

type_synonym pystr = "nat list"

definition py :: "string \<Rightarrow> pystr" where
  "py s = map of_char s"

text \<open>\<open>sub in s\<close> on strings: \<open>sub\<close> occurs as a contiguous substring of \<open>s\<close>.\<close>

fun str_contains :: "'a list \<Rightarrow> 'a list \<Rightarrow> bool" where
  "str_contains sub [] = (sub = [])"
| "str_contains sub (c # cs) = (prefix sub (c # cs) \<or> str_contains sub cs)"

text \<open>\<open>s.find(sub)\<close>: the lowest index where \<open>sub\<close> occurs, or \<open>-1\<close>.\<close>

fun str_find :: "'a list \<Rightarrow> 'a list \<Rightarrow> int" where
  "str_find sub [] = (if sub = [] then 0 else - 1)"
| "str_find sub (c # cs) =
     (if prefix sub (c # cs) then 0
      else (let r = str_find sub cs in if r < 0 then - 1 else r + 1))"

text \<open>\<open>s[i:]\<close>: a negative start counts from the end and is clipped at the front.\<close>

definition slice_from :: "'a list \<Rightarrow> int \<Rightarrow> 'a list" where
  "slice_from s i =
     (if i < 0 then drop (nat (max 0 (int (length s) + i))) s else drop (nat i) s)"

text \<open>
  \<open>s.replace(old, new)\<close>: every occurrence of \<open>old\<close>, found from the left and not
  overlapping, becomes \<open>new\<close>. (For an empty \<open>old\<close> Python puts \<open>new\<close> before every
  character and at the end.)
\<close>

fun str_replace :: "'a list \<Rightarrow> 'a list \<Rightarrow> 'a list \<Rightarrow> 'a list" where
  "str_replace old new [] = (if old = [] then new else [])"
| "str_replace old new (c # cs) =
     (if old = [] then new @ c # str_replace old new cs
      else if prefix old (c # cs)
        then new @ str_replace old new (drop (length old) (c # cs))
      else c # str_replace old new cs)"

section \<open>Identifier normalizer\<close>

text \<open>
  The statement pattern of \<open>_folder_name_to_problem_id\<close>:
  \<^verbatim>\<open>if old in question_id: question_id = question_id.replace(old, new)\<close>
\<close>

definition replace_if_present :: "pystr \<Rightarrow> pystr \<Rightarrow> pystr \<Rightarrow> pystr" where
  "replace_if_present old new question_id =
     (if str_contains old question_id then str_replace old new question_id
      else question_id)"

text \<open>The two Chinese literals: U+5251 U+6307 followed by \<open>Offer\<close>, and U+9762 U+8BD5 U+9898.\<close>

definition jz_offer_zh :: pystr where
  "jz_offer_zh = [0x5251, 0x6307] @ py ''Offer''"

definition interview_zh :: pystr where
  "interview_zh = [0x9762, 0x8BD5, 0x9898]"

text \<open>
  The value of \<open>question_id\<close> when the test \<^verbatim>\<open>"JZ_Offer" in question_id\<close> is reached:
  the slice after the first underscore, then the two underscore replacements.
\<close>

definition question_id_after_underscores :: "pystr \<Rightarrow> pystr" where
  "question_id_after_underscores folder_name =
     (let question_id = slice_from folder_name (str_find (py ''_'') folder_name + 1);
          question_id = replace_if_present (py ''__'') (py ''.'') question_id;
          question_id = replace_if_present (py ''_'') (py '' '') question_id
      in question_id)"

definition folder_name_to_problem_id :: "pystr \<Rightarrow> pystr" where
  "folder_name_to_problem_id folder_name =
     (let question_id = slice_from folder_name (str_find (py ''_'') folder_name + 1);
          question_id = replace_if_present (py ''__'') (py ''.'') question_id;
          question_id = replace_if_present (py ''_'') (py '' '') question_id;
          question_id = replace_if_present (py ''JZ_Offer'') jz_offer_zh question_id;
          question_id = replace_if_present (py ''Interview'') interview_zh question_id
      in question_id)"

section \<open>JSON values as Python objects\<close>

text \<open>
  \<open>resp.json()\<close> gives Python objects: \<open>None\<close>, booleans, integers, floats, strings,
  lists and dictionaries. The code only subscripts, iterates, tests for truth, compares
  with a string literal and passes such values on, so a float is kept as its IEEE 754
  binary64 bit pattern (it is false exactly when it is \<open>+0.0\<close> or \<open>-0.0\<close>), and a
  dictionary as its items in order (the parser keeps one item per key).
\<close>

datatype json =
    JNull
  | JBool bool
  | JInt int
  | JFloat "64 word"
  | JStr pystr
  | JArr "json list"
  | JObj "(pystr \<times> json) list"

text \<open>
  The exceptions the code can meet; all are subclasses of \<open>Exception\<close>, so every
  \<^verbatim>\<open>except Exception\<close> catches them (cancellation of the task, which is not one,
  is not modelled). A computation that may raise returns \<open>exn + 'a\<close>, with \<open>Inl\<close>
  the exception; \<open>and_then\<close> sequences two of them.
\<close>

datatype exn =
    KeyError
  | TypeError
  | TransportError
  | HTTPStatusError
  | JSONDecodeError
  | OSError
  | UnicodeDecodeError

fun and_then :: "exn + 'a \<Rightarrow> ('a \<Rightarrow> exn + 'b) \<Rightarrow> exn + 'b" where
  "and_then (Inl e) f = Inl e"
| "and_then (Inr x) f = f x"

text \<open>Truth value testing (\<^verbatim>\<open>if v\<close>, \<^verbatim>\<open>not v\<close>).\<close>

fun truthy :: "json \<Rightarrow> bool" where
  "truthy JNull = False"
| "truthy (JBool b) = b"
| "truthy (JInt i) = (i \<noteq> 0)"
| "truthy (JFloat w) = (w \<noteq> 0 \<and> w \<noteq> 0x8000000000000000)"
| "truthy (JStr s) = (s \<noteq> [])"
| "truthy (JArr xs) = (xs \<noteq> [])"
| "truthy (JObj kvs) = (kvs \<noteq> [])"

text \<open>\<^verbatim>\<open>v == "literal"\<close>: true only for a string with the same code points.\<close>

definition py_eq :: "json \<Rightarrow> pystr \<Rightarrow> bool" where
  "py_eq v s = (v = JStr s)"

text \<open>
  \<^verbatim>\<open>v["key"]\<close>: \<open>KeyError\<close> on a dictionary without the key, \<open>TypeError\<close> on
  anything that is not a dictionary (lists and strings take integer indices).
  \<open>subscripts\<close> is a chain \<^verbatim>\<open>v["a"]["b"]["c"]\<close>.
\<close>

fun subscript :: "json \<Rightarrow> pystr \<Rightarrow> exn + json" where
  "subscript (JObj kvs) k = (case map_of kvs k of None \<Rightarrow> Inl KeyError | Some v \<Rightarrow> Inr v)"
| "subscript _ k = Inl TypeError"

fun subscripts :: "json \<Rightarrow> pystr list \<Rightarrow> exn + json" where
  "subscripts j [] = Inr j"
| "subscripts j (k # ks) = and_then (subscript j k) (\<lambda>v. subscripts v ks)"

text \<open>
  \<^verbatim>\<open>for x in v\<close>: the elements of a list, the keys of a dictionary, the characters of
  a string; \<open>TypeError\<close> otherwise.
\<close>

fun iterate :: "json \<Rightarrow> exn + json list" where
  "iterate (JArr xs) = Inr xs"
| "iterate (JObj kvs) = Inr (map (\<lambda>kv. JStr (fst kv)) kvs)"
| "iterate (JStr s) = Inr (map (\<lambda>c. JStr [c]) s)"
| "iterate _ = Inl TypeError"

text \<open>\<^verbatim>\<open>"key" in v\<close>.\<close>

fun contains_item :: "pystr \<Rightarrow> json \<Rightarrow> exn + bool" where
  "contains_item k (JObj kvs) = Inr (map_of kvs k \<noteq> None)"
| "contains_item k (JArr xs) = Inr (JStr k \<in> set xs)"
| "contains_item k (JStr s) = Inr (str_contains k s)"
| "contains_item k _ = Inl TypeError"

section \<open>Requests and the remote server\<close>

text \<open>
  A request is the URL and the JSON body that \<^verbatim>\<open>client.post\<close> sends; the five query
  documents are constants of \<open>main.py\<close> and are kept by name. The server is any
  function from the requests made so far and the present request to an outcome, so its
  answers may depend on the history. \<open>post\<close> stands for the three calls
  \<^verbatim>\<open>client.post\<close>, \<^verbatim>\<open>raise_for_status\<close> and \<^verbatim>\<open>json\<close> together: it gives
  the parsed body, or the exception one of them raised, and records the request in the
  trace. Logging is not modelled.
\<close>

datatype query_document =
    QUESTION_DESC_QUERY
  | QUESTION_DESC_CN_QUERY
  | QUESTION_KEYWORDS_QUERY
  | QUESTION_SOLUTION_ARTICLE_QUERY
  | QUESTION_SOLUTION_ARTICLE_CONTENT_QUERY

record request =
  url :: string
  query :: query_document
  variables :: json
  operationName :: string

type_synonym response = "exn + json"
type_synonym trace = "request list"
type_synonym server = "trace \<Rightarrow> request \<Rightarrow> response"

definition post :: "server \<Rightarrow> request \<Rightarrow> trace \<Rightarrow> response \<times> trace" where
  "post srv rq tr = (srv tr rq, tr @ [rq])"

section \<open>The fetchers\<close>

text \<open>
  \<open>LANGUAGE\<close> is read from the environment when the module is loaded; it is a parameter
  here. The two author names of \<open>WANTED_AUTHORS\<close> are U+5BAB U+6C34 U+4E09 U+53F6 and
  U+7075 U+8336 U+5C71 U+827E U+5E9C.
\<close>

definition LEET_CODE_API_BASE :: string where
  "LEET_CODE_API_BASE = ''https://leetcode.cn/graphql/''"

definition WANTED_AUTHORS :: "(pystr \<times> pystr) list" where
  "WANTED_AUTHORS =
     [([0x5BAB, 0x6C34, 0x4E09, 0x53F6], py ''ac_oier''),
      ([0x7075, 0x8336, 0x5C71, 0x827E, 0x5E9C], py ''endlesscheng'')]"

text \<open>
  \<open>_get_leetcode_question_desc_by_slug\<close>: the branch on \<open>LANGUAGE\<close> picks the request
  and the response key; every exception of the body gives \<open>"No description found"\<close>.
\<close>

definition content_query :: "pystr \<Rightarrow> pystr \<Rightarrow> request \<times> pystr" where
  "content_query LANGUAGE slug =
     (if LANGUAGE = py ''zh-CN''
      then (\<lparr>url = LEET_CODE_API_BASE, query = QUESTION_DESC_CN_QUERY,
             variables = JObj [(py ''titleSlug'', JStr slug)],
             operationName = ''questionTranslations''\<rparr>,
            py ''translatedContent'')
      else (\<lparr>url = LEET_CODE_API_BASE, query = QUESTION_DESC_QUERY,
             variables = JObj [(py ''titleSlug'', JStr slug)],
             operationName = ''questionContent''\<rparr>,
            py ''content''))"

definition get_leetcode_question_desc_by_slug ::
  "pystr \<Rightarrow> server \<Rightarrow> pystr \<Rightarrow> trace \<Rightarrow> json \<times> trace" where
  "get_leetcode_question_desc_by_slug LANGUAGE srv slug tr =
     (let (query_json, resp_key) = content_query LANGUAGE slug;
          (resp, tr') = post srv query_json tr
      in case and_then resp (\<lambda>j. subscripts j [py ''data'', py ''question'', resp_key]) of
           Inl e \<Rightarrow> (JStr (py ''No description found''), tr')
         | Inr v \<Rightarrow> (v, tr'))"

text \<open>
  \<open>_get_leetcode_article\<close>: the content of an article, or \<open>None\<close> (here \<open>JNull\<close>)
  when the article data is false, has no \<open>content\<close>, or an exception was raised.
\<close>

definition article_request :: "json \<Rightarrow> request" where
  "article_request article_slug =
     \<lparr>url = LEET_CODE_API_BASE,
      query = QUESTION_SOLUTION_ARTICLE_CONTENT_QUERY,
      variables = JObj [(py ''slug'', article_slug)],
      operationName = ''discussTopic''\<rparr>"

definition get_leetcode_article :: "server \<Rightarrow> json \<Rightarrow> trace \<Rightarrow> json \<times> trace" where
  "get_leetcode_article srv article_slug tr =
     (let query_json = article_request article_slug;
          (resp, tr') = post srv query_json tr
      in case and_then resp (\<lambda>j.
              and_then (subscripts j [py ''data'', py ''solutionArticle'']) (\<lambda>article_data.
                if truthy article_data
                then and_then (contains_item (py ''content'') article_data) (\<lambda>present.
                       if present
                       then and_then (subscript article_data (py ''content''))
                              (\<lambda>content. Inr (Some content))
                       else Inr None)
                else Inr None)) of
           Inl e \<Rightarrow> (JNull, tr')
         | Inr None \<Rightarrow> (JNull, tr')
         | Inr (Some content) \<Rightarrow> (content, tr'))"

text \<open>
  \<open>find_leetcode_question_slug_by_problem_id\<close>. \<open>scan_questions\<close> is the \<^verbatim>\<open>for\<close>
  loop over the questions of a page, \<open>scan_page\<close> the body of the \<^verbatim>\<open>while True\<close>
  loop after the request, and \<open>slug_page_loop\<close> the loop itself with the enclosing
  \<^verbatim>\<open>try\<close>. The loop has no bound on the number of pages, so it is a partial function:
  the value \<open>None\<close> means that the call does not return.
\<close>

definition filters :: json where
  "filters = JObj
     [(py ''filterCombineType'', JStr (py ''ALL'')),
      (py ''statusFilter'',
         JObj [(py ''questionStatuses'', JArr []), (py ''operator'', JStr (py ''IS''))]),
      (py ''difficultyFilter'',
         JObj [(py ''difficulties'', JArr []), (py ''operator'', JStr (py ''IS''))]),
      (py ''languageFilter'',
         JObj [(py ''languageSlugs'', JArr []), (py ''operator'', JStr (py ''IS''))]),
      (py ''topicFilter'',
         JObj [(py ''topicSlugs'', JArr []), (py ''operator'', JStr (py ''IS''))]),
      (py ''acceptanceFilter'', JObj []),
      (py ''frequencyFilter'', JObj []),
      (py ''frontendIdFilter'', JObj []),
      (py ''lastSubmittedFilter'', JObj []),
      (py ''publishedFilter'', JObj []),
      (py ''companyFilter'',
         JObj [(py ''companySlugs'', JArr []), (py ''operator'', JStr (py ''IS''))]),
      (py ''positionFilter'',
         JObj [(py ''positionSlugs'', JArr []), (py ''operator'', JStr (py ''IS''))]),
      (py ''contestPointFilter'',
         JObj [(py ''contestPoints'', JArr []), (py ''operator'', JStr (py ''IS''))]),
      (py ''premiumFilter'',
         JObj [(py ''premiumStatus'', JArr []), (py ''operator'', JStr (py ''IS''))])]"

definition page_request :: "pystr \<Rightarrow> nat \<Rightarrow> request" where
  "page_request frontend_problem_id page_no =
     (let page_size = 100 in
      \<lparr>url = ''https://leetcode.cn/graphql'',
       query = QUESTION_KEYWORDS_QUERY,
       variables = JObj
         [(py ''searchKeyword'', JStr frontend_problem_id),
          (py ''categorySlug'', JStr (py ''all-code-essentials'')),
          (py ''skip'', JInt (int (page_no * page_size))),
          (py ''limit'', JInt (int page_size)),
          (py ''filters'', filters)],
       operationName = ''problemsetQuestionListV2''\<rparr>)"

fun scan_questions :: "pystr \<Rightarrow> json list \<Rightarrow> exn + json option" where
  "scan_questions frontend_problem_id [] = Inr None"
| "scan_questions frontend_problem_id (question # questions) =
     and_then (subscript question (py ''questionFrontendId'')) (\<lambda>fid.
       if py_eq fid frontend_problem_id
       then and_then (subscript question (py ''titleSlug'')) (\<lambda>s. Inr (Some s))
       else scan_questions frontend_problem_id questions)"

datatype page_result = Return json | Break | Continue

definition scan_page :: "pystr \<Rightarrow> response \<Rightarrow> exn + page_result" where
  "scan_page frontend_problem_id result =
     and_then result (\<lambda>j.
     and_then (subscripts j [py ''data'', py ''problemsetQuestionListV2'']) (\<lambda>res_dict.
     and_then (subscript res_dict (py ''questions'')) (\<lambda>qs.
     and_then (iterate qs) (\<lambda>questions.
     and_then (scan_questions frontend_problem_id questions) (\<lambda>found.
       case found of
         Some s \<Rightarrow> Inr (Return s)
       | None \<Rightarrow>
           and_then (subscript res_dict (py ''hasMore'')) (\<lambda>has_more.
             if \<not> truthy has_more then Inr Break else Inr Continue))))))"

partial_function (option) slug_page_loop ::
  "server \<Rightarrow> pystr \<Rightarrow> nat \<Rightarrow> trace \<Rightarrow> (json \<times> trace) option" where
  "slug_page_loop srv frontend_problem_id page_no tr =
     (let (result, tr') = post srv (page_request frontend_problem_id page_no) tr
      in case scan_page frontend_problem_id result of
           Inl e \<Rightarrow> Some (JStr (py ''No slug found''), tr')
         | Inr (Return s) \<Rightarrow> Some (s, tr')
         | Inr Break \<Rightarrow> Some (JStr (py ''No slug found''), tr')
         | Inr Continue \<Rightarrow> slug_page_loop srv frontend_problem_id (page_no + 1) tr')"

definition find_leetcode_question_slug_by_problem_id ::
  "server \<Rightarrow> pystr \<Rightarrow> trace \<Rightarrow> (json \<times> trace) option" where
  "find_leetcode_question_slug_by_problem_id srv frontend_problem_id tr =
     slug_page_loop srv frontend_problem_id 0 tr"

section \<open>Paths and files\<close>

text \<open>
  \<open>pathlib\<close> in its POSIX flavour: a path is a root (\<open>""\<close>, \<open>"/"\<close> or \<open>"//"\<close>) and
  the list of its components, without empty components and without \<open>"."\<close>. The file
  system gives what is at a path: a file with its bytes, or something that exists and
  cannot be opened for reading (a directory, for instance); with it comes the codec of
  the locale. \<open>Path.read_text()\<close> opens the file in text mode: the bytes are decoded
  with that codec (\<open>UnicodeDecodeError\<close> when it fails) and every \<open>CR LF\<close> and every
  other \<open>CR\<close> of the decoded text becomes \<open>LF\<close>.
\<close>

datatype posix_path = Path (root: pystr) (names: "pystr list")

fun split_on :: "'a \<Rightarrow> 'a list \<Rightarrow> 'a list list" where
  "split_on sep [] = [[]]"
| "split_on sep (c # cs) =
     (if c = sep then [] # split_on sep cs
      else (case split_on sep cs of
              [] \<Rightarrow> [[c]]
            | w # ws \<Rightarrow> (c # w) # ws))"

definition splitroot :: "pystr \<Rightarrow> pystr \<times> pystr" where
  "splitroot p =
     (if take 1 p \<noteq> py ''/'' then ([], p)
      else if take 1 (drop 1 p) \<noteq> py ''/'' \<or> take 1 (drop 2 p) = py ''/''
        then (py ''/'', drop 1 p)
      else (py ''//'', drop 2 p))"

definition parse_path :: "pystr \<Rightarrow> posix_path" where
  "parse_path p =
     (let (rt, rel) = splitroot p
      in Path rt (filter (\<lambda>x. x \<noteq> [] \<and> x \<noteq> py ''.'') (split_on 47 rel)))"

definition parent :: "posix_path \<Rightarrow> posix_path" where
  "parent p = (if names p = [] then p else Path (root p) (butlast (names p)))"

definition name :: "posix_path \<Rightarrow> pystr" where
  "name p = (if names p = [] then [] else last (names p))"

definition joinpath :: "posix_path \<Rightarrow> pystr \<Rightarrow> posix_path" where
  "joinpath p segment =
     (let q = parse_path segment
      in if root q \<noteq> [] then q else Path (root p) (names p @ names q))"

type_synonym bytes = "8 word list"

datatype fs_entry = File bytes | Unreadable

record filesystem =
  entries :: "posix_path \<Rightarrow> fs_entry option"
  decode :: "bytes \<Rightarrow> pystr option"

definition path_exists :: "filesystem \<Rightarrow> posix_path \<Rightarrow> bool" where
  "path_exists fs p = (entries fs p \<noteq> None)"

fun universal_newlines :: "pystr \<Rightarrow> pystr" where
  "universal_newlines [] = []"
| "universal_newlines [c] = (if c = 13 then [10] else [c])"
| "universal_newlines (c # d # cs) =
     (if c = 13 \<and> d = 10 then 10 # universal_newlines cs
      else if c = 13 then 10 # universal_newlines (d # cs)
      else c # universal_newlines (d # cs))"

definition read_text :: "filesystem \<Rightarrow> posix_path \<Rightarrow> exn + json" where
  "read_text fs p =
     (case entries fs p of
        Some (File raw) \<Rightarrow>
          (case decode fs raw of
             Some decoded \<Rightarrow> Inr (JStr (universal_newlines decoded))
           | None \<Rightarrow> Inl UnicodeDecodeError)
      | Some Unreadable \<Rightarrow> Inl OSError
      | None \<Rightarrow> Inl OSError)"

section \<open>The tools\<close>

text \<open>
  \<open>get_leetcode_question_desc\<close> calls itself with the slug in the place of the file
  path, so its argument is a JSON value (\<open>Path\<close> raises \<open>TypeError\<close> on anything that
  is not a string) and it is a partial function: \<open>None\<close> means that the call does not
  return. Python's recursion limit is not modelled; under it the calls that do not
  return here end in a \<open>RecursionError\<close> instead.
\<close>

definition find_leetcode_question_slug ::
  "server \<Rightarrow> pystr \<Rightarrow> trace \<Rightarrow> (json \<times> trace) option" where
  "find_leetcode_question_slug srv file_path tr =
     (let path = parse_path file_path;
          dir_path = parent path;
          keyword = folder_name_to_problem_id (name dir_path)
      in find_leetcode_question_slug_by_problem_id srv keyword tr)"

partial_function (option) get_leetcode_question_desc ::
  "pystr \<Rightarrow> filesystem \<Rightarrow> server \<Rightarrow> json \<Rightarrow> trace \<Rightarrow> ((exn + json) \<times> trace) option"
where
  "get_leetcode_question_desc LANGUAGE fs srv file_path tr =
     (case file_path of
        JStr p \<Rightarrow>
          (let path = parse_path p;
               dir_path = parent path;
               problem_file_name =
                 (if LANGUAGE = py ''zh-CN'' then py ''problem_zh.md'' else py ''problem.md'');
               problem_file_path = joinpath dir_path problem_file_name
           in if path_exists fs problem_file_path
              then Some (read_text fs problem_file_path, tr)
              else (case find_leetcode_question_slug srv p tr of
                      None \<Rightarrow> None
                    | Some (slug, tr') \<Rightarrow>
                        get_leetcode_question_desc LANGUAGE fs srv slug tr'))
      | _ \<Rightarrow> Some (Inl TypeError, tr))"

definition get_leetcode_question_desc_by_problem_id ::
  "pystr \<Rightarrow> server \<Rightarrow> pystr \<Rightarrow> trace \<Rightarrow> json \<times> trace" where
  "get_leetcode_question_desc_by_problem_id LANGUAGE srv problem_id tr =
     get_leetcode_question_desc_by_slug LANGUAGE srv problem_id tr"

text \<open>
  \<open>get_leetcode_question_solution_by_problem_id\<close>: \<open>scan_articles\<close> is the inner loop
  over the articles of one listing, \<open>try_authors\<close> the loop over \<open>WANTED_AUTHORS\<close> with
  its \<^verbatim>\<open>try\<close>: an exception anywhere in the body moves on to the next author.
\<close>

definition listing_request :: "json \<Rightarrow> pystr \<Rightarrow> request" where
  "listing_request slug author_name =
     \<lparr>url = LEET_CODE_API_BASE,
      query = QUESTION_SOLUTION_ARTICLE_QUERY,
      variables = JObj
        [(py ''questionSlug'', slug),
         (py ''skip'', JInt 0),
         (py ''first'', JInt 15),
         (py ''orderBy'', JStr (py ''DEFAULT'')),
         (py ''userInput'', JStr author_name),
         (py ''tagSlugs'', JArr [])],
      operationName = ''questionTopicsList''\<rparr>"

definition author_matches :: "pystr \<Rightarrow> pystr \<Rightarrow> json \<Rightarrow> exn + bool" where
  "author_matches author_name author_slug profile =
     and_then (subscript profile (py ''realName'')) (\<lambda>real_name.
       if py_eq real_name author_name then Inr True
       else and_then (subscript profile (py ''userSlug'')) (\<lambda>user_slug.
              Inr (py_eq user_slug author_slug)))"

fun scan_articles ::
  "server \<Rightarrow> pystr \<Rightarrow> pystr \<Rightarrow> json list \<Rightarrow> trace \<Rightarrow> (exn + json option) \<times> trace" where
  "scan_articles srv author_name author_slug [] tr = (Inr None, tr)"
| "scan_articles srv author_name author_slug (article # articles) tr =
     (case and_then (subscripts article [py ''node'', py ''author'', py ''profile''])
             (author_matches author_name author_slug) of
        Inl e \<Rightarrow> (Inl e, tr)
      | Inr False \<Rightarrow> scan_articles srv author_name author_slug articles tr
      | Inr True \<Rightarrow>
          (case subscripts article [py ''node'', py ''slug''] of
             Inl e \<Rightarrow> (Inl e, tr)
           | Inr article_slug \<Rightarrow>
               (let (content, tr') = get_leetcode_article srv article_slug tr
                in if truthy content then (Inr (Some content), tr')
                   else scan_articles srv author_name author_slug articles tr')))"

fun try_authors ::
  "server \<Rightarrow> json \<Rightarrow> (pystr \<times> pystr) list \<Rightarrow> trace \<Rightarrow> json \<times> trace" where
  "try_authors srv slug [] tr = (JStr (py ''Error fetching solution article''), tr)"
| "try_authors srv slug ((author_name, author_slug) # authors) tr =
     (let (resp, tr1) = post srv (listing_request slug author_name) tr
      in case and_then resp (\<lambda>j.
              and_then (subscripts j [py ''data'', py ''questionSolutionArticles'', py ''edges''])
                iterate) of
           Inl e \<Rightarrow> try_authors srv slug authors tr1
         | Inr articles \<Rightarrow>
             (case scan_articles srv author_name author_slug articles tr1 of
                (Inl e, tr2) \<Rightarrow> try_authors srv slug authors tr2
              | (Inr None, tr2) \<Rightarrow> try_authors srv slug authors tr2
              | (Inr (Some content), tr2) \<Rightarrow> (content, tr2)))"

definition get_leetcode_question_solution_by_problem_id ::
  "server \<Rightarrow> pystr \<Rightarrow> trace \<Rightarrow> (json \<times> trace) option" where
  "get_leetcode_question_solution_by_problem_id srv problem_id tr =
     (case find_leetcode_question_slug_by_problem_id srv problem_id tr of
        None \<Rightarrow> None
      | Some (slug, tr') \<Rightarrow>
          if py_eq slug (py ''No slug found'')
          then Some (JStr (py ''No solution article found''), tr')
          else Some (try_authors srv slug WANTED_AUTHORS tr'))"

definition get_leetcode_question_solution ::
  "server \<Rightarrow> pystr \<Rightarrow> trace \<Rightarrow> (json \<times> trace) option" where
  "get_leetcode_question_solution srv file_path tr =
     (let dir_path = parent (parse_path file_path);
          problem_id = folder_name_to_problem_id (name dir_path)
      in get_leetcode_question_solution_by_problem_id srv problem_id tr)"

section \<open>Notions used to state the claims\<close>

text \<open>
  \<open>page_response srv id tr k\<close> is the server's answer to the \<open>k\<close>-th page request of a
  search for \<open>id\<close> that starts with trace \<open>tr\<close>. \<open>unmatched_page id r b\<close> says that
  \<open>r\<close> is a well-formed page, that each of its questions has a \<open>questionFrontendId\<close>
  other than \<open>id\<close>, and that the truth value of its \<open>hasMore\<close> is \<open>b\<close>.
\<close>

definition page_response :: "server \<Rightarrow> pystr \<Rightarrow> trace \<Rightarrow> nat \<Rightarrow> response" where
  "page_response srv frontend_problem_id tr k =
     srv (tr @ map (page_request frontend_problem_id) [0..<k])
       (page_request frontend_problem_id k)"

definition page_questions :: "response \<Rightarrow> json list option" where
  "page_questions result =
     (case and_then result (\<lambda>j.
             subscripts j [py ''data'', py ''problemsetQuestionListV2'', py ''questions'']) of
        Inr (JArr questions) \<Rightarrow> Some questions
      | _ \<Rightarrow> None)"

definition page_has_more :: "response \<Rightarrow> json option" where
  "page_has_more result =
     (case and_then result (\<lambda>j.
             subscripts j [py ''data'', py ''problemsetQuestionListV2'', py ''hasMore'']) of
        Inr has_more \<Rightarrow> Some has_more
      | Inl e \<Rightarrow> None)"

definition other_question :: "pystr \<Rightarrow> json \<Rightarrow> bool" where
  "other_question frontend_problem_id question =
     (case subscript question (py ''questionFrontendId'') of
        Inr fid \<Rightarrow> fid \<noteq> JStr frontend_problem_id
      | Inl e \<Rightarrow> False)"

definition unmatched_page :: "pystr \<Rightarrow> response \<Rightarrow> bool \<Rightarrow> bool" where
  "unmatched_page frontend_problem_id result has_next =
     (case (page_questions result, page_has_more result) of
        (Some questions, Some has_more) \<Rightarrow>
          list_all (other_question frontend_problem_id) questions \<and> truthy has_more = has_next
      | _ \<Rightarrow> False)"

text \<open>
  \<open>pagination_ends\<close>: some page of the search does not ask for a further page.
  \<open>string_typed\<close>: in every body the server sends, the fields \<open>titleSlug\<close>,
  \<open>content\<close> and \<open>translatedContent\<close> hold strings wherever they occur.
\<close>

definition is_listing_request :: "request \<Rightarrow> bool" where
  "is_listing_request rq = (query rq = QUESTION_SOLUTION_ARTICLE_QUERY)"

definition pagination_ends :: "server \<Rightarrow> pystr \<Rightarrow> trace \<Rightarrow> bool" where
  "pagination_ends srv frontend_problem_id tr =
     (\<exists>n. scan_page frontend_problem_id (page_response srv frontend_problem_id tr n)
            \<noteq> Inr Continue)"

definition is_str :: "json \<Rightarrow> bool" where
  "is_str v = (case v of JStr s \<Rightarrow> True | _ \<Rightarrow> False)"

definition text_keys :: "pystr list" where
  "text_keys = [py ''titleSlug'', py ''content'', py ''translatedContent'']"

fun text_fields_are_strings :: "json \<Rightarrow> bool" where
  "text_fields_are_strings (JObj kvs) =
     list_all (\<lambda>kv. (fst kv \<in> set text_keys \<longrightarrow> is_str (snd kv))
                     \<and> text_fields_are_strings (snd kv)) kvs"
| "text_fields_are_strings (JArr xs) = list_all text_fields_are_strings xs"
| "text_fields_are_strings _ = True"

definition string_typed :: "server \<Rightarrow> bool" where
  "string_typed srv = (\<forall>h rq j. srv h rq = Inr j \<longrightarrow> text_fields_are_strings j)"








section \<open>Concrete servers and file systems\<close>

text \<open>The inputs at which the theorems below are evaluated.\<close>

definition question_page :: "json list \<Rightarrow> json \<Rightarrow> json" where
  "question_page questions has_more =
     JObj [(py ''data'', JObj [(py ''problemsetQuestionListV2'',
       JObj [(py ''questions'', JArr questions), (py ''hasMore'', has_more)])])]"

definition demo_question :: "pystr \<Rightarrow> pystr \<Rightarrow> json" where
  "demo_question frontend_id title_slug =
     JObj [(py ''questionFrontendId'', JStr frontend_id), (py ''titleSlug'', JStr title_slug)]"

definition scenario_page :: json where
  "scenario_page = question_page [demo_question (py ''42'') (py ''answer-slug'')] (JBool False)"

definition endless_server :: server where
  "endless_server h rq = Inr (question_page [] (JBool True))"

definition two_page_server :: server where
  "two_page_server h rq =
     (if subscript (variables rq) (py ''skip'') = Inr (JInt 0)
      then Inr (question_page [demo_question (py ''1'') (py ''two-sum'')] (JBool True))
      else Inr scenario_page)"

definition failing_second_page_server :: server where
  "failing_second_page_server h rq =
     (if subscript (variables rq) (py ''skip'') = Inr (JInt 0)
      then Inr (question_page [demo_question (py ''1'') (py ''two-sum'')] (JBool True))
      else Inl HTTPStatusError)"

definition demo_article :: "pystr \<Rightarrow> pystr \<Rightarrow> pystr \<Rightarrow> json" where
  "demo_article real_name user_slug article_slug =
     JObj [(py ''node'', JObj
       [(py ''slug'', JStr article_slug),
        (py ''author'', JObj [(py ''profile'', JObj
           [(py ''userSlug'', JStr user_slug), (py ''realName'', JStr real_name)])])])]"

definition demo_listing :: "json list \<Rightarrow> json" where
  "demo_listing edges =
     JObj [(py ''data'', JObj [(py ''questionSolutionArticles'',
       JObj [(py ''totalNum'', JInt (int (length edges))), (py ''edges'', JArr edges)])])]"


definition second_author_name :: pystr where
  "second_author_name = fst (WANTED_AUTHORS ! 1)"

definition demo_server :: server where
  "demo_server h rq =
     (case query rq of
        QUESTION_KEYWORDS_QUERY \<Rightarrow> Inr scenario_page
      | QUESTION_DESC_CN_QUERY \<Rightarrow>
          Inr (JObj [(py ''data'', JObj [(py ''question'',
            JObj [(py ''translatedTitle'', JNull),
                  (py ''translatedContent'', JStr (py ''description (zh)''))])])])
      | QUESTION_DESC_QUERY \<Rightarrow>
          Inr (JObj [(py ''data'', JObj [(py ''question'',
            JObj [(py ''content'', JStr (py ''description (en)''))])])])
      | QUESTION_SOLUTION_ARTICLE_QUERY \<Rightarrow>
          (if subscript (variables rq) (py ''userInput'') = Inr (JStr second_author_name)
           then Inr (demo_listing
             [demo_article (py ''somebody'') (py ''endlesscheng'') (py ''first-draft''),
              demo_article (py ''other'') (py ''other'') (py ''unrelated''),
              demo_article second_author_name (py ''renamed'') (py ''full-text'')])
           else Inr (demo_listing [demo_article (py ''other'') (py ''other'') (py ''unrelated'')]))
      | QUESTION_SOLUTION_ARTICLE_CONTENT_QUERY \<Rightarrow>
          (if subscript (variables rq) (py ''slug'') = Inr (JStr (py ''full-text''))
           then Inr (JObj [(py ''data'', JObj [(py ''solutionArticle'',
                  JObj [(py ''content'', JStr (py ''solution text''))])])])
           else Inr (JObj [(py ''data'', JObj [(py ''solutionArticle'',
                  JObj [(py ''content'', JStr [])])])])))"

definition null_content_server :: server where
  "null_content_server h rq =
     Inr (JObj [(py ''data'', JObj [(py ''question'',
       JObj [(py ''translatedTitle'', JNull), (py ''translatedContent'', JNull)])])])"

definition latin_1 :: "bytes \<Rightarrow> pystr option" where
  "latin_1 raw = Some (map unat raw)"

definition ascii_bytes :: "string \<Rightarrow> bytes" where
  "ascii_bytes s = map of_char s"

definition working_directory_file :: filesystem where
  "working_directory_file =
     \<lparr>entries = (\<lambda>p. if p = Path [] [py ''problem_zh.md'']
                       then Some (File (ascii_bytes ''# unrelated notes''))
                       else None),
      decode = latin_1\<rparr>"

definition no_files :: filesystem where
  "no_files = \<lparr>entries = (\<lambda>p. None), decode = latin_1\<rparr>"

definition cached_files :: filesystem where
  "cached_files =
     \<lparr>entries = (\<lambda>p.
        if p = Path (py ''/'') [py ''p'', py ''1_Two_Sum'', py ''problem_zh.md'']
        then Some (File (ascii_bytes ''# Two Sum (zh)''))
        else if p = Path (py ''/'') [py ''p'', py ''1_Two_Sum'', py ''problem.md'']
        then Some (File (ascii_bytes ''# Two Sum''))
        else None),
      decode = latin_1\<rparr>"

definition crlf_cached_file :: filesystem where
  "crlf_cached_file =
     \<lparr>entries = (\<lambda>p.
        if p = Path (py ''/'') [py ''p'', py ''1_Two_Sum'', py ''problem_zh.md'']
        then Some (File [97, 13, 10, 98])
        else None),
      decode = latin_1\<rparr>"

section \<open>Properties of the string operations\<close>

lemma str_contains_set: "str_contains sub s \<Longrightarrow> set sub \<subseteq> set s"
proof (induction s)
  case Nil
  then show ?case by simp
next
  case (Cons c cs)
  from Cons.prems have "prefix sub (c # cs) \<or> str_contains sub cs" by simp
  then show ?case
  proof
    assume "prefix sub (c # cs)"
    then show ?thesis by (rule set_mono_prefix)
  next
    assume "str_contains sub cs"
    with Cons.IH show ?thesis by auto
  qed
qed

lemma str_contains_single: "str_contains [c] s \<longleftrightarrow> c \<in> set s"
  by (induction s) auto

lemma str_find_absent: "c \<notin> set s \<Longrightarrow> str_find [c] s = - 1"
  by (induction s) auto

lemma set_slice_from: "set (slice_from s i) \<subseteq> set s"
  by (simp add: slice_from_def set_drop_subset)

lemma str_replace_avoids:
  "c \<notin> set new \<Longrightarrow> c \<notin> set s \<Longrightarrow> c \<notin> set (str_replace old new s)"
proof (induction old new s rule: str_replace.induct)
  case (1 old new)
  then show ?case by simp
next
  case (2 old new x xs)
  have "c \<notin> set (drop (length old) (x # xs))"
    using "2.prems"(2) in_set_dropD by fast
  with 2 show ?case by auto
qed

lemma str_replace_single_removes:
  "c \<noteq> d \<Longrightarrow> c \<notin> set (str_replace [c] [d] s)"
  by (induction s) auto

lemma replace_if_present_absent:
  "\<not> str_contains old s \<Longrightarrow> replace_if_present old new s = s"
  by (simp add: replace_if_present_def)

lemma replace_if_present_avoids:
  "c \<notin> set new \<Longrightarrow> c \<notin> set s \<Longrightarrow> c \<notin> set (replace_if_present old new s)"
  by (simp add: replace_if_present_def str_replace_avoids)

lemma replace_if_present_single_removes:
  "c \<noteq> d \<Longrightarrow> c \<notin> set (replace_if_present [c] [d] s)"
  by (simp add: replace_if_present_def str_replace_single_removes str_contains_single)

lemma py_underscore: "py ''_'' = [95]"
  by (simp add: py_def)

lemma py_space: "py '' '' = [32]"
  by (simp add: py_def)

lemma underscore_in_jz: "95 \<in> set (py ''JZ_Offer'')"
  by (simp add: py_def)

lemma no_underscore_after_underscores:
  "95 \<notin> set (question_id_after_underscores s)"
  unfolding question_id_after_underscores_def Let_def py_underscore py_space
  by (rule replace_if_present_single_removes) simp

lemma no_jz_after_underscores:
  "\<not> str_contains (py ''JZ_Offer'') (question_id_after_underscores s)"
proof
  assume "str_contains (py ''JZ_Offer'') (question_id_after_underscores s)"
  then have "set (py ''JZ_Offer'') \<subseteq> set (question_id_after_underscores s)"
    by (rule str_contains_set)
  with underscore_in_jz have "95 \<in> set (question_id_after_underscores s)"
    by blast
  with no_underscore_after_underscores show False by blast
qed

lemma folder_name_to_problem_id_stages:
  "folder_name_to_problem_id s =
     replace_if_present (py ''Interview'') interview_zh
       (replace_if_present (py ''JZ_Offer'') jz_offer_zh (question_id_after_underscores s))"
  by (simp add: folder_name_to_problem_id_def question_id_after_underscores_def Let_def)

lemma normalizer_fixes_clean_names:
  assumes "\<not> str_contains (py ''_'') s" and "\<not> str_contains (py ''Interview'') s"
  shows "folder_name_to_problem_id s = s"
proof -
  from assms(1) have notin: "95 \<notin> set s"
    by (simp add: py_underscore str_contains_single)
  then have find: "str_find (py ''_'') s = - 1"
    by (simp add: py_underscore str_find_absent)
  have no_dd: "\<not> str_contains (py ''__'') s"
  proof
    assume "str_contains (py ''__'') s"
    then have "set (py ''__'') \<subseteq> set s" by (rule str_contains_set)
    with notin show False by (simp add: py_def)
  qed
  have no_jz: "\<not> str_contains (py ''JZ_Offer'') s"
  proof
    assume "str_contains (py ''JZ_Offer'') s"
    then have "set (py ''JZ_Offer'') \<subseteq> set s" by (rule str_contains_set)
    with notin underscore_in_jz show False by blast
  qed
  have slice: "slice_from s (str_find (py ''_'') s + 1) = s"
    by (simp add: find slice_from_def)
  show ?thesis
    by (simp add: folder_name_to_problem_id_def Let_def slice replace_if_present_absent
        no_dd assms no_jz)
qed

section \<open>Properties of the fetchers\<close>

lemma slug_page_loop_trace:
  assumes "slug_page_loop srv pid k tr = Some y"
  shows "\<exists>n. snd y = tr @ map (page_request pid) [k..<k + Suc n]"
proof (rule slug_page_loop.raw_induct
    [where P = "\<lambda>srv pid k tr y. \<exists>n. snd y = tr @ map (page_request pid) [k..<k + Suc n]",
      OF _ assms])
  fix loop :: "server \<Rightarrow> pystr \<Rightarrow> nat \<Rightarrow> trace \<Rightarrow> (json \<times> trace) option"
  fix srv pid k tr y
  assume IH: "\<And>srv pid k tr y. loop srv pid k tr = Some y \<Longrightarrow>
      \<exists>n. snd y = tr @ map (page_request pid) [k..<k + Suc n]"
  assume body: "(let (result, tr') = post srv (page_request pid k) tr
      in case scan_page pid result of
           Inl e \<Rightarrow> Some (JStr (py ''No slug found''), tr')
         | Inr (Return s) \<Rightarrow> Some (s, tr')
         | Inr Break \<Rightarrow> Some (JStr (py ''No slug found''), tr')
         | Inr Continue \<Rightarrow> loop srv pid (k + 1) tr') = Some y"
  let ?tr1 = "tr @ [page_request pid k]"
  let ?out = "scan_page pid (srv tr (page_request pid k))"
  have one: "?tr1 = tr @ map (page_request pid) [k..<k + Suc 0]"
    by simp
  show "\<exists>n. snd y = tr @ map (page_request pid) [k..<k + Suc n]"
  proof (cases ?out)
    case (Inl e)
    with body have "snd y = ?tr1" by (auto simp: post_def)
    with one show ?thesis by metis
  next
    case (Inr res)
    show ?thesis
    proof (cases res)
      case (Return s)
      with Inr body have "snd y = ?tr1" by (auto simp: post_def)
      with one show ?thesis by metis
    next
      case Break
      with Inr body have "snd y = ?tr1" by (auto simp: post_def)
      with one show ?thesis by metis
    next
      case Continue
      with Inr body have "loop srv pid (k + 1) ?tr1 = Some y"
        by (simp add: post_def)
      then obtain n where "snd y = ?tr1 @ map (page_request pid) [k + 1..<k + 1 + Suc n]"
        using IH by blast
      moreover have "[k..<k + Suc (Suc n)] = k # [k + 1..<k + 1 + Suc n]"
        using upt_conv_Cons [of k "k + Suc (Suc n)"] by (simp del: upt_Suc)
      ultimately have "snd y = tr @ map (page_request pid) [k..<k + Suc (Suc n)]"
        by (simp del: upt_Suc)
      then show ?thesis by blast
    qed
  qed
qed

lemma and_then_Inr_iff: "and_then m f = Inr v \<longleftrightarrow> (\<exists>x. m = Inr x \<and> f x = Inr v)"
  by (cases m) auto

lemma and_then_Inl_iff:
  "and_then m f = Inl e \<longleftrightarrow> m = Inl e \<or> (\<exists>x. m = Inr x \<and> f x = Inl e)"
  by (cases m) auto

lemma subscripts_snoc:
  "subscripts j (ks @ [k]) = and_then (subscripts j ks) (\<lambda>v. subscript v k)"
proof (induction ks arbitrary: j)
  case Nil
  show ?case by (cases "subscript j k") auto
next
  case (Cons a ks)
  show ?case by (cases "subscript j a") (auto simp: Cons.IH)
qed

lemma subscripts_3:
  "subscripts j [a, b, c] = and_then (subscripts j [a, b]) (\<lambda>v. subscript v c)"
  using subscripts_snoc [of j "[a, b]" c] by simp

lemma slug_page_loop_step:
  "slug_page_loop srv pid k tr =
     (case scan_page pid (srv tr (page_request pid k)) of
        Inl e \<Rightarrow> Some (JStr (py ''No slug found''), tr @ [page_request pid k])
      | Inr (Return s) \<Rightarrow> Some (s, tr @ [page_request pid k])
      | Inr Break \<Rightarrow> Some (JStr (py ''No slug found''), tr @ [page_request pid k])
      | Inr Continue \<Rightarrow> slug_page_loop srv pid (k + 1) (tr @ [page_request pid k]))"
  by (subst slug_page_loop.simps) (simp add: post_def)

lemma slug_page_loop_skip:
  "(\<forall>i<n. scan_page pid (srv (tr @ map (page_request pid) [k..<k + i]) (page_request pid (k + i)))
        = Inr Continue) \<Longrightarrow>
   slug_page_loop srv pid k tr =
     slug_page_loop srv pid (k + n) (tr @ map (page_request pid) [k..<k + n])"
proof (induction n arbitrary: k tr)
  case 0
  show ?case by simp
next
  case (Suc n)
  from Suc.prems have first: "scan_page pid (srv tr (page_request pid k)) = Inr Continue"
    by fastforce
  have shift: "[k..<Suc (k + i)] = k # [Suc k..<Suc (k + i)]" for i
    using upt_conv_Cons [of k "Suc (k + i)"] by (simp del: upt_Suc)
  have rest: "\<forall>i<n. scan_page pid
      (srv ((tr @ [page_request pid k]) @ map (page_request pid) [Suc k..<Suc k + i])
         (page_request pid (Suc k + i))) = Inr Continue"
  proof (intro allI impI)
    fix i assume "i < n"
    then have "Suc i < Suc n" by simp
    with Suc.prems have "scan_page pid
        (srv (tr @ map (page_request pid) [k..<k + Suc i]) (page_request pid (k + Suc i)))
        = Inr Continue" by blast
    then show "scan_page pid
      (srv ((tr @ [page_request pid k]) @ map (page_request pid) [Suc k..<Suc k + i])
         (page_request pid (Suc k + i))) = Inr Continue"
      by (simp add: shift del: upt_Suc)
  qed
  have "slug_page_loop srv pid k tr = slug_page_loop srv pid (Suc k) (tr @ [page_request pid k])"
    by (subst slug_page_loop_step) (simp add: first)
  also have "\<dots> = slug_page_loop srv pid (Suc k + n)
      ((tr @ [page_request pid k]) @ map (page_request pid) [Suc k..<Suc k + n])"
    using rest by (rule Suc.IH)
  also have "\<dots> = slug_page_loop srv pid (k + Suc n) (tr @ map (page_request pid) [k..<k + Suc n])"
    by (simp add: shift del: upt_Suc)
  finally show ?case .
qed

lemma find_slug_after_pages:
  assumes "\<forall>i<n. scan_page pid (page_response srv pid tr i) = Inr Continue"
  shows "find_leetcode_question_slug_by_problem_id srv pid tr =
     (case scan_page pid (page_response srv pid tr n) of
        Inl e \<Rightarrow> Some (JStr (py ''No slug found''), tr @ map (page_request pid) [0..<Suc n])
      | Inr (Return s) \<Rightarrow> Some (s, tr @ map (page_request pid) [0..<Suc n])
      | Inr Break \<Rightarrow> Some (JStr (py ''No slug found''), tr @ map (page_request pid) [0..<Suc n])
      | Inr Continue \<Rightarrow>
          slug_page_loop srv pid (Suc n) (tr @ map (page_request pid) [0..<Suc n]))"
proof -
  from assms have "\<forall>i<n. scan_page pid
      (srv (tr @ map (page_request pid) [0..<0 + i]) (page_request pid (0 + i))) = Inr Continue"
    by (simp add: page_response_def)
  then have "slug_page_loop srv pid 0 tr =
      slug_page_loop srv pid (0 + n) (tr @ map (page_request pid) [0..<0 + n])"
    by (rule slug_page_loop_skip)
  also have "\<dots> = slug_page_loop srv pid n (tr @ map (page_request pid) [0..<n])"
    by simp
  also note slug_page_loop_step [of srv pid n "tr @ map (page_request pid) [0..<n]"]
  finally show ?thesis
    unfolding find_leetcode_question_slug_by_problem_id_def
    by (simp add: page_response_def split: sum.splits page_result.splits)
qed

lemma scan_questions_unmatched:
  "list_all (other_question pid) qs \<Longrightarrow> scan_questions pid qs = Inr None"
  by (induction qs) (auto simp: other_question_def py_eq_def split: sum.splits)

lemma scan_questions_first_match:
  assumes "list_all (other_question pid) pre"
    and "subscript q (py ''questionFrontendId'') = Inr (JStr pid)"
    and "subscript q (py ''titleSlug'') = Inr s"
  shows "scan_questions pid (pre @ q # rest) = Inr (Some s)"
  using assms by (induction pre) (auto simp: other_question_def py_eq_def split: sum.splits)

lemma page_questions_Some:
  "page_questions result = Some qs \<Longrightarrow>
     \<exists>j res_dict. result = Inr j
       \<and> subscripts j [py ''data'', py ''problemsetQuestionListV2''] = Inr res_dict
       \<and> subscript res_dict (py ''questions'') = Inr (JArr qs)"
  by (cases result)
    (auto simp: page_questions_def subscripts_3 and_then_Inr_iff simp del: subscripts.simps
      split: sum.splits json.splits)

lemma page_has_more_Some:
  "page_has_more result = Some hm \<Longrightarrow>
     \<exists>j res_dict. result = Inr j
       \<and> subscripts j [py ''data'', py ''problemsetQuestionListV2''] = Inr res_dict
       \<and> subscript res_dict (py ''hasMore'') = Inr hm"
  by (cases result)
    (auto simp: page_has_more_def subscripts_3 and_then_Inr_iff simp del: subscripts.simps
      split: sum.splits json.splits)

lemma scan_page_match:
  assumes "page_questions result = Some (pre @ q # rest)"
    and "list_all (other_question pid) pre"
    and "subscript q (py ''questionFrontendId'') = Inr (JStr pid)"
    and "subscript q (py ''titleSlug'') = Inr s"
  shows "scan_page pid result = Inr (Return s)"
proof -
  from page_questions_Some [OF assms(1)] obtain j res_dict where
    "result = Inr j"
    "subscripts j [py ''data'', py ''problemsetQuestionListV2''] = Inr res_dict"
    "subscript res_dict (py ''questions'') = Inr (JArr (pre @ q # rest))"
    by blast
  then show ?thesis
    by (simp add: scan_page_def scan_questions_first_match [OF assms(2-4)])
qed

lemma scan_page_unmatched:
  assumes "unmatched_page pid result has_next"
  shows "scan_page pid result = Inr (if has_next then Continue else Break)"
proof -
  from assms obtain qs hm where qs: "page_questions result = Some qs"
    and hm: "page_has_more result = Some hm"
    and other: "list_all (other_question pid) qs" and tm: "truthy hm = has_next"
    by (auto simp: unmatched_page_def split: option.splits)
  from page_questions_Some [OF qs] page_has_more_Some [OF hm] obtain j res_dict where
    "result = Inr j"
    "subscripts j [py ''data'', py ''problemsetQuestionListV2''] = Inr res_dict"
    "subscript res_dict (py ''questions'') = Inr (JArr qs)"
    "subscript res_dict (py ''hasMore'') = Inr hm"
    by fastforce
  then show ?thesis
    using tm by (auto simp add: scan_page_def scan_questions_unmatched [OF other])
qed

lemma find_slug_terminates:
  assumes "pagination_ends srv pid tr"
  shows "\<exists>r tr'. find_leetcode_question_slug_by_problem_id srv pid tr = Some (r, tr')"
proof -
  let ?P = "\<lambda>n. scan_page pid (page_response srv pid tr n) \<noteq> Inr Continue"
  from assms have "\<exists>n. ?P n" by (simp add: pagination_ends_def)
  then obtain n where n: "?P n" and least: "\<forall>i<n. \<not> ?P i"
    using exists_least_iff [of ?P] by blast
  from least have "\<forall>i<n. scan_page pid (page_response srv pid tr i) = Inr Continue"
    by simp
  from find_slug_after_pages [OF this] n show ?thesis
    by (auto split: sum.splits page_result.splits)
qed

lemma scan_endless_page: "scan_page pid (Inr (question_page [] (JBool True))) = Inr Continue"
  by (simp add: scan_page_def question_page_def py_def)

lemma endless_server_never_returns: "slug_page_loop endless_server pid k tr = None"
proof (cases "slug_page_loop endless_server pid k tr")
  case None
  then show ?thesis .
next
  case (Some y)
  have "endless_server \<noteq> endless_server"
  proof (rule slug_page_loop.raw_induct
      [where P = "\<lambda>srv pid k tr y. srv \<noteq> endless_server", OF _ Some])
    fix loop :: "server \<Rightarrow> pystr \<Rightarrow> nat \<Rightarrow> trace \<Rightarrow> (json \<times> trace) option"
    fix srv pid k tr y
    assume IH: "\<And>srv pid k tr y. loop srv pid k tr = Some y \<Longrightarrow> srv \<noteq> endless_server"
    assume body: "(let (result, tr') = post srv (page_request pid k) tr
      in case scan_page pid result of
           Inl e \<Rightarrow> Some (JStr (py ''No slug found''), tr')
         | Inr (Return s) \<Rightarrow> Some (s, tr')
         | Inr Break \<Rightarrow> Some (JStr (py ''No slug found''), tr')
         | Inr Continue \<Rightarrow> loop srv pid (k + 1) tr') = Some y"
    show "srv \<noteq> endless_server"
    proof
      assume srv: "srv = endless_server"
      then have "scan_page pid (srv tr (page_request pid k)) = Inr Continue"
        by (simp add: endless_server_def scan_endless_page)
      with body have "loop srv pid (k + 1) (tr @ [page_request pid k]) = Some y"
        by (simp add: post_def)
      from IH [OF this] srv show False by contradiction
    qed
  qed
  then show ?thesis by simp
qed

lemma scan_scenario_page_other:
  "pid \<noteq> py ''42'' \<Longrightarrow> scan_page pid (Inr scenario_page) = Inr Break"
  by (auto simp add: scan_page_def scenario_page_def question_page_def demo_question_def py_eq_def py_def)

lemma scan_scenario_page_42:
  "scan_page (py ''42'') (Inr scenario_page) = Inr (Return (JStr (py ''answer-slug'')))"
  by (simp add: scan_page_def scenario_page_def question_page_def demo_question_def py_eq_def py_def)

lemma demo_server_page: "demo_server h (page_request pid k) = Inr scenario_page"
  by (simp add: demo_server_def page_request_def)

lemma demo_find_other:
  "pid \<noteq> py ''42'' \<Longrightarrow>
   find_leetcode_question_slug_by_problem_id demo_server pid tr =
     Some (JStr (py ''No slug found''), tr @ [page_request pid 0])"
  unfolding find_leetcode_question_slug_by_problem_id_def
  by (subst slug_page_loop_step) (simp add: demo_server_page scan_scenario_page_other)

lemma demo_find_42:
  "find_leetcode_question_slug_by_problem_id demo_server (py ''42'') tr =
     Some (JStr (py ''answer-slug''), tr @ [page_request (py ''42'') 0])"
  unfolding find_leetcode_question_slug_by_problem_id_def
  by (subst slug_page_loop_step) (simp add: demo_server_page scan_scenario_page_42)

lemma keyword_of_plain_name:
  "folder_name_to_problem_id (name (parent (parse_path (py ''No slug found'')))) = []"
  "folder_name_to_problem_id (name (parent (parse_path (py ''answer-slug'')))) = []"
  "folder_name_to_problem_id (name (parent (parse_path (py ''/p/1_42/sol.py'')))) = py ''42''"
  by (simp_all add: folder_name_to_problem_id_def replace_if_present_def slice_from_def
      name_def parent_def parse_path_def splitroot_def py_def Let_def)

lemma desc_loops_on_sentinel:
  "get_leetcode_question_desc LANGUAGE no_files demo_server (JStr (py ''No slug found'')) tr = None"
proof (cases "get_leetcode_question_desc LANGUAGE no_files demo_server
    (JStr (py ''No slug found'')) tr")
  case None
  then show ?thesis .
next
  case (Some y)
  let ?bad = "\<lambda>(fs :: filesystem) (srv :: server) (fp :: json).
      fs = no_files \<and> srv = demo_server \<and> fp = JStr (py ''No slug found'')"
  have "\<not> ?bad no_files demo_server (JStr (py ''No slug found''))"
  proof (rule get_leetcode_question_desc.raw_induct
      [where P = "\<lambda>LANGUAGE fs srv fp tr y. \<not> ?bad fs srv fp", OF _ Some])
    fix desc :: "pystr \<Rightarrow> filesystem \<Rightarrow> server \<Rightarrow> json \<Rightarrow> trace \<Rightarrow> ((exn + json) \<times> trace) option"
    fix LANGUAGE fs srv file_path tr y
    assume IH: "\<And>LANGUAGE fs srv fp tr y. desc LANGUAGE fs srv fp tr = Some y \<Longrightarrow> \<not> ?bad fs srv fp"
    assume body: "(case file_path of
        JStr p \<Rightarrow>
          (let path = parse_path p;
               dir_path = parent path;
               problem_file_name =
                 (if LANGUAGE = py ''zh-CN'' then py ''problem_zh.md'' else py ''problem.md'');
               problem_file_path = joinpath dir_path problem_file_name
           in if path_exists fs problem_file_path
              then Some (read_text fs problem_file_path, tr)
              else (case find_leetcode_question_slug srv p tr of
                      None \<Rightarrow> None
                    | Some (slug, tr') \<Rightarrow> desc LANGUAGE fs srv slug tr'))
      | _ \<Rightarrow> Some (Inl TypeError, tr)) = Some y"
    show "\<not> ?bad fs srv file_path"
    proof
      assume bad: "?bad fs srv file_path"
      have "find_leetcode_question_slug demo_server (py ''No slug found'') tr =
          Some (JStr (py ''No slug found''), tr @ [page_request [] 0])"
        unfolding find_leetcode_question_slug_def Let_def keyword_of_plain_name
        by (rule demo_find_other) (simp add: py_def)
      with body bad have
        "desc LANGUAGE fs srv (JStr (py ''No slug found'')) (tr @ [page_request [] 0]) = Some y"
        by (simp add: Let_def path_exists_def no_files_def)
      from IH [OF this] bad show False by simp
    qed
  qed
  then show ?thesis by simp
qed

lemma text_fields_subscript:
  assumes "text_fields_are_strings j" and "subscript j k = Inr v"
  shows "text_fields_are_strings v \<and> (k \<in> set text_keys \<longrightarrow> is_str v)"
proof (cases j)
  case (JObj kvs)
  with assms(2) have "map_of kvs k = Some v" by (simp split: option.splits)
  then have "(k, v) \<in> set kvs" by (rule map_of_SomeD)
  with assms(1) JObj show ?thesis by (auto simp: list_all_iff)
qed (use assms in simp_all)

lemma text_fields_subscripts:
  "text_fields_are_strings j \<Longrightarrow> subscripts j ks = Inr v \<Longrightarrow> text_fields_are_strings v"
proof (induction ks arbitrary: j)
  case Nil
  then show ?case by simp
next
  case (Cons k ks)
  from Cons.prems(2) obtain w where w: "subscript j k = Inr w" and rest: "subscripts w ks = Inr v"
    by (auto simp: and_then_Inr_iff)
  from text_fields_subscript [OF Cons.prems(1) w] have "text_fields_are_strings w" by simp
  from Cons.IH [OF this rest] show ?case .
qed

lemma text_fields_iterate:
  "text_fields_are_strings j \<Longrightarrow> iterate j = Inr xs \<Longrightarrow> list_all text_fields_are_strings xs"
  by (cases j) (auto simp: list_all_iff)

lemma scan_questions_str:
  "list_all text_fields_are_strings qs \<Longrightarrow> scan_questions pid qs = Inr (Some s) \<Longrightarrow> is_str s"
proof (induction qs)
  case Nil
  then show ?case by simp
next
  case (Cons q qs)
  from Cons.prems(2) obtain fid where fid: "subscript q (py ''questionFrontendId'') = Inr fid"
    and rest: "(if py_eq fid pid
        then and_then (subscript q (py ''titleSlug'')) (\<lambda>s. Inr (Some s))
        else scan_questions pid qs) = Inr (Some s)"
    by (auto simp: and_then_Inr_iff)
  show ?case
  proof (cases "py_eq fid pid")
    case True
    with rest have "subscript q (py ''titleSlug'') = Inr s"
      by (auto simp: and_then_Inr_iff)
    moreover from Cons.prems(1) have "text_fields_are_strings q" by simp
    ultimately show ?thesis
      using text_fields_subscript [of q "py ''titleSlug''" s] by (simp add: text_keys_def)
  next
    case False
    with rest Cons show ?thesis by simp
  qed
qed

lemma scan_page_str:
  assumes "string_typed srv" and "scan_page pid (srv h rq) = Inr (Return s)"
  shows "is_str s"
proof -
  from assms(2) obtain j res_dict qs questions found where j: "srv h rq = Inr j"
    and rd: "subscripts j [py ''data'', py ''problemsetQuestionListV2''] = Inr res_dict"
    and qs: "subscript res_dict (py ''questions'') = Inr qs"
    and it: "iterate qs = Inr questions"
    and sc: "scan_questions pid questions = Inr found"
    and res: "(case found of Some s \<Rightarrow> Inr (Return s)
               | None \<Rightarrow> and_then (subscript res_dict (py ''hasMore''))
                   (\<lambda>has_more. if \<not> truthy has_more then Inr Break else Inr Continue))
              = Inr (Return s)"
    unfolding scan_page_def and_then_Inr_iff by blast
  from res have found: "found = Some s"
    by (cases found) (auto simp: and_then_Inr_iff split: if_splits)
  from assms(1) j have "text_fields_are_strings j" by (auto simp: string_typed_def)
  from text_fields_subscripts [OF this rd] have "text_fields_are_strings res_dict" .
  from text_fields_subscript [OF this qs] have "text_fields_are_strings qs" by simp
  from text_fields_iterate [OF this it] have "list_all text_fields_are_strings questions" .
  from scan_questions_str [OF this] sc found show ?thesis by simp
qed

lemma sentinel_is_str: "is_str (JStr s)"
  by (simp add: is_str_def)

lemma slug_page_loop_str:
  assumes typed: "string_typed srv" and run: "slug_page_loop srv pid k tr = Some y"
  shows "is_str (fst y)"
proof -
  have "string_typed srv \<longrightarrow> is_str (fst y)"
  proof (rule slug_page_loop.raw_induct
      [where P = "\<lambda>srv pid k tr y. string_typed srv \<longrightarrow> is_str (fst y)", OF _ run])
    fix loop :: "server \<Rightarrow> pystr \<Rightarrow> nat \<Rightarrow> trace \<Rightarrow> (json \<times> trace) option"
    fix srv pid k tr y
    assume IH: "\<And>srv pid k tr y. loop srv pid k tr = Some y \<Longrightarrow>
        string_typed srv \<longrightarrow> is_str (fst y)"
    assume body: "(let (result, tr') = post srv (page_request pid k) tr
      in case scan_page pid result of
           Inl e \<Rightarrow> Some (JStr (py ''No slug found''), tr')
         | Inr (Return s) \<Rightarrow> Some (s, tr')
         | Inr Break \<Rightarrow> Some (JStr (py ''No slug found''), tr')
         | Inr Continue \<Rightarrow> loop srv pid (k + 1) tr') = Some y"
    show "string_typed srv \<longrightarrow> is_str (fst y)"
    proof
      assume typed: "string_typed srv"
      show "is_str (fst y)"
      proof (cases "scan_page pid (srv tr (page_request pid k))")
        case (Inl e)
        with body show ?thesis by (auto simp: post_def sentinel_is_str)
      next
        case (Inr res)
        show ?thesis
        proof (cases res)
          case (Return s)
          with Inr scan_page_str [OF typed] have "is_str s" by blast
          with Return Inr body show ?thesis by (auto simp: post_def)
        next
          case Break
          with Inr body show ?thesis by (auto simp: post_def sentinel_is_str)
        next
          case Continue
          with Inr body have "loop srv pid (k + 1) (tr @ [page_request pid k]) = Some y"
            by (simp add: post_def)
          from IH [OF this] typed show ?thesis by simp
        qed
      qed
    qed
  qed
  with typed show ?thesis by simp
qed

lemma get_leetcode_article_str:
  assumes "string_typed srv" and "truthy (fst (get_leetcode_article srv article_slug tr))"
  shows "is_str (fst (get_leetcode_article srv article_slug tr))"
proof -
  let ?rq = "article_request article_slug"
  let ?out = "and_then (srv tr ?rq) (\<lambda>j.
      and_then (subscripts j [py ''data'', py ''solutionArticle'']) (\<lambda>article_data.
        if truthy article_data
        then and_then (contains_item (py ''content'') article_data) (\<lambda>present.
               if present
               then and_then (subscript article_data (py ''content''))
                      (\<lambda>content. Inr (Some content))
               else Inr None)
        else Inr None))"
  have fst_eq: "fst (get_leetcode_article srv article_slug tr) =
      (case ?out of Inl e \<Rightarrow> JNull | Inr None \<Rightarrow> JNull | Inr (Some content) \<Rightarrow> content)"
    by (simp add: get_leetcode_article_def post_def Let_def split: sum.splits option.splits)
  with assms(2) obtain content where out: "?out = Inr (Some content)"
    and c: "fst (get_leetcode_article srv article_slug tr) = content"
    by (auto split: sum.splits option.splits)
  from out obtain j article_data where j: "srv tr ?rq = Inr j"
    and ad: "subscripts j [py ''data'', py ''solutionArticle''] = Inr article_data"
    and sub: "subscript article_data (py ''content'') = Inr content"
    by (auto simp: and_then_Inr_iff split: if_splits)
  from assms(1) j have "text_fields_are_strings j" by (auto simp: string_typed_def)
  from text_fields_subscripts [OF this ad] have "text_fields_are_strings article_data" .
  from text_fields_subscript [OF this sub] have "is_str content" by (simp add: text_keys_def)
  with c show ?thesis by simp
qed

lemma scan_articles_str:
  "string_typed srv \<Longrightarrow> scan_articles srv a b articles tr = (Inr (Some content), tr') \<Longrightarrow>
     is_str content"
proof (induction articles arbitrary: tr)
  case Nil
  then show ?case by simp
next
  case (Cons article articles)
  show ?case
  proof (cases "and_then (subscripts article [py ''node'', py ''author'', py ''profile''])
      (author_matches a b)")
    case (Inl e)
    with Cons.prems(2) show ?thesis by simp
  next
    case (Inr ok)
    show ?thesis
    proof (cases ok)
      case False
      with Inr Cons.prems(2) have "scan_articles srv a b articles tr = (Inr (Some content), tr')"
        by simp
      from Cons.IH [OF Cons.prems(1) this] show ?thesis .
    next
      case True
      show ?thesis
      proof (cases "subscripts article [py ''node'', py ''slug'']")
        case (Inl e)
        with True Inr Cons.prems(2) show ?thesis by simp
      next
        case slug: (Inr article_slug)
        obtain c tr1 where g: "get_leetcode_article srv article_slug tr = (c, tr1)"
          by (cases "get_leetcode_article srv article_slug tr")
        show ?thesis
        proof (cases "truthy c")
          case t: True
          with g True Inr slug Cons.prems(2) have "content = c" by simp
          moreover from get_leetcode_article_str [OF Cons.prems(1), of article_slug tr] g t
          have "is_str c" by simp
          ultimately show ?thesis by simp
        next
          case f: False
          with g True Inr slug Cons.prems(2)
          have "scan_articles srv a b articles tr1 = (Inr (Some content), tr')" by simp
          from Cons.IH [OF Cons.prems(1) this] show ?thesis .
        qed
      qed
    qed
  qed
qed

lemma try_authors_str:
  "string_typed srv \<Longrightarrow> is_str (fst (try_authors srv slug authors tr))"
proof (induction authors arbitrary: tr)
  case Nil
  show ?case by (simp add: sentinel_is_str)
next
  case (Cons author authors)
  obtain a b where author: "author = (a, b)" by (cases author)
  let ?tr1 = "tr @ [listing_request slug a]"
  let ?arts = "and_then (srv tr (listing_request slug a)) (\<lambda>j.
      and_then (subscripts j [py ''data'', py ''questionSolutionArticles'', py ''edges'']) iterate)"
  show ?case
  proof (cases ?arts)
    case (Inl e)
    then have "try_authors srv slug (author # authors) tr = try_authors srv slug authors ?tr1"
      by (simp add: author post_def)
    with Cons.IH [OF Cons.prems] show ?thesis by simp
  next
    case (Inr articles)
    obtain r tr2 where sc: "scan_articles srv a b articles ?tr1 = (r, tr2)"
      by (cases "scan_articles srv a b articles ?tr1")
    show ?thesis
    proof (cases r)
      case (Inl e)
      with Inr sc have "try_authors srv slug (author # authors) tr = try_authors srv slug authors tr2"
        by (simp add: author post_def)
      with Cons.IH [OF Cons.prems] show ?thesis by simp
    next
      case r: (Inr found)
      show ?thesis
      proof (cases found)
        case None
        with r Inr sc have "try_authors srv slug (author # authors) tr = try_authors srv slug authors tr2"
          by (simp add: author post_def)
        with Cons.IH [OF Cons.prems] show ?thesis by simp
      next
        case (Some content)
        with r Inr sc have "try_authors srv slug (author # authors) tr = (content, tr2)"
          by (simp add: author post_def)
        moreover from scan_articles_str [OF Cons.prems] sc r Some have "is_str content" by simp
        ultimately show ?thesis by simp
      qed
    qed
  qed
qed

lemma desc_by_slug_str:
  assumes "string_typed srv"
  shows "is_str (fst (get_leetcode_question_desc_by_slug LANGUAGE srv slug tr))"
proof -
  obtain rq key where cq: "content_query LANGUAGE slug = (rq, key)"
    by (cases "content_query LANGUAGE slug")
  then have key: "key \<in> set text_keys"
    by (auto simp: content_query_def text_keys_def split: if_splits)
  let ?out = "and_then (srv tr rq) (\<lambda>j. subscripts j [py ''data'', py ''question'', key])"
  have fst_eq: "fst (get_leetcode_question_desc_by_slug LANGUAGE srv slug tr) =
      (case ?out of Inl e \<Rightarrow> JStr (py ''No description found'') | Inr v \<Rightarrow> v)"
    by (simp add: get_leetcode_question_desc_by_slug_def cq post_def split: sum.splits)
  show ?thesis
  proof (cases ?out)
    case (Inl e)
    with fst_eq show ?thesis by (simp add: sentinel_is_str)
  next
    case (Inr v)
    then obtain j q where j: "srv tr rq = Inr j"
      and q: "subscripts j [py ''data'', py ''question''] = Inr q"
      and v: "subscript q key = Inr v"
      by (auto simp: and_then_Inr_iff subscripts_3 simp del: subscripts.simps)
    from assms j have "text_fields_are_strings j" by (auto simp: string_typed_def)
    from text_fields_subscripts [OF this q] have "text_fields_are_strings q" .
    from text_fields_subscript [OF this v] key have "is_str v" by simp
    with fst_eq Inr show ?thesis by simp
  qed
qed









lemma desc_requests_are_page_queries:
  assumes run: "get_leetcode_question_desc LANGUAGE fs srv file_path tr = Some y"
  shows "\<exists>extra. snd y = tr @ extra
      \<and> list_all (\<lambda>rq. query rq = QUESTION_KEYWORDS_QUERY) extra"
proof (rule get_leetcode_question_desc.raw_induct
    [where P = "\<lambda>LANGUAGE fs srv file_path tr y. \<exists>extra. snd y = tr @ extra
      \<and> list_all (\<lambda>rq. query rq = QUESTION_KEYWORDS_QUERY) extra", OF _ run])
  fix desc :: "pystr \<Rightarrow> filesystem \<Rightarrow> server \<Rightarrow> json \<Rightarrow> trace \<Rightarrow> ((exn + json) \<times> trace) option"
  fix LANGUAGE fs srv file_path tr y
  assume IH: "\<And>LANGUAGE fs srv fp tr y. desc LANGUAGE fs srv fp tr = Some y \<Longrightarrow>
      \<exists>extra. snd y = tr @ extra \<and> list_all (\<lambda>rq. query rq = QUESTION_KEYWORDS_QUERY) extra"
  assume body: "(case file_path of
      JStr p \<Rightarrow>
        (let path = parse_path p;
             dir_path = parent path;
             problem_file_name =
               (if LANGUAGE = py ''zh-CN'' then py ''problem_zh.md'' else py ''problem.md'');
             problem_file_path = joinpath dir_path problem_file_name
         in if path_exists fs problem_file_path
            then Some (read_text fs problem_file_path, tr)
            else (case find_leetcode_question_slug srv p tr of
                    None \<Rightarrow> None
                  | Some (slug, tr') \<Rightarrow> desc LANGUAGE fs srv slug tr'))
    | _ \<Rightarrow> Some (Inl TypeError, tr)) = Some y"
  let ?goal = "\<exists>extra. snd y = tr @ extra
      \<and> list_all (\<lambda>rq. query rq = QUESTION_KEYWORDS_QUERY) extra"
  have trivial: "snd y = tr \<Longrightarrow> ?goal" by simp
  show ?goal
  proof (cases file_path)
    case (JStr p)
    let ?cache = "joinpath (parent (parse_path p))
        (if LANGUAGE = py ''zh-CN'' then py ''problem_zh.md'' else py ''problem.md'')"
    show ?thesis
    proof (cases "path_exists fs ?cache")
      case True
      with body JStr have "snd y = tr" by (auto simp: Let_def)
      then show ?thesis by (rule trivial)
    next
      case False
      with body JStr obtain slug tr' where
        f: "find_leetcode_question_slug srv p tr = Some (slug, tr')"
        and d: "desc LANGUAGE fs srv slug tr' = Some y"
        by (auto simp: Let_def split: option.splits)
      let ?kw = "folder_name_to_problem_id (name (parent (parse_path p)))"
      from f have "slug_page_loop srv ?kw 0 tr = Some (slug, tr')"
        by (simp add: find_leetcode_question_slug_def
            find_leetcode_question_slug_by_problem_id_def Let_def)
      from slug_page_loop_trace [OF this] obtain n where
        tr': "tr' = tr @ map (page_request ?kw) [0..<0 + Suc n]" by auto
      from IH [OF d] obtain extra where e: "snd y = tr' @ extra"
        and q: "list_all (\<lambda>rq. query rq = QUESTION_KEYWORDS_QUERY) extra" by blast
      have "list_all (\<lambda>rq. query rq = QUESTION_KEYWORDS_QUERY)
          (map (page_request ?kw) [0..<0 + Suc n])"
        by (simp add: list_all_iff page_request_def)
      with e q tr' have "snd y = tr @ (map (page_request ?kw) [0..<0 + Suc n] @ extra)
          \<and> list_all (\<lambda>rq. query rq = QUESTION_KEYWORDS_QUERY)
              (map (page_request ?kw) [0..<0 + Suc n] @ extra)"
        by simp
      then show ?thesis by blast
    qed
  qed (use body in \<open>auto intro: trivial\<close>)
qed

lemma desc_at_failing_input:
  "get_leetcode_question_desc LANGUAGE no_files demo_server (JStr (py ''/p/1_42/sol.py'')) [] = None"
proof -
  have f1: "find_leetcode_question_slug demo_server (py ''/p/1_42/sol.py'') [] =
      Some (JStr (py ''answer-slug''), [page_request (py ''42'') 0])"
    unfolding find_leetcode_question_slug_def Let_def keyword_of_plain_name
    using demo_find_42 [of "[]"] by simp
  have f2: "find_leetcode_question_slug demo_server (py ''answer-slug'') tr =
      Some (JStr (py ''No slug found''), tr @ [page_request [] 0])" for tr
    unfolding find_leetcode_question_slug_def Let_def keyword_of_plain_name
    by (rule demo_find_other) (simp add: py_def)
  have "get_leetcode_question_desc LANGUAGE no_files demo_server (JStr (py ''/p/1_42/sol.py'')) []
      = get_leetcode_question_desc LANGUAGE no_files demo_server (JStr (py ''answer-slug''))
          [page_request (py ''42'') 0]"
    by (subst get_leetcode_question_desc.simps)
      (simp add: Let_def path_exists_def no_files_def f1)
  also have "\<dots> = get_leetcode_question_desc LANGUAGE no_files demo_server
      (JStr (py ''No slug found'')) ([page_request (py ''42'') 0] @ [page_request [] 0])"
    by (subst get_leetcode_question_desc.simps)
      (simp add: Let_def path_exists_def no_files_def f2)
  also have "\<dots> = None" by (rule desc_loops_on_sentinel)
  finally show ?thesis .
qed

lemma two_page_server_pages:
  "two_page_server h (page_request pid 0)
     = Inr (question_page [demo_question (py ''1'') (py ''two-sum'')] (JBool True))"
  "two_page_server h (page_request pid (Suc 0)) = Inr scenario_page"
  "failing_second_page_server h (page_request pid 0)
     = Inr (question_page [demo_question (py ''1'') (py ''two-sum'')] (JBool True))"
  "failing_second_page_server h (page_request pid (Suc 0)) = Inl HTTPStatusError"
  by (simp_all add: two_page_server_def failing_second_page_server_def page_request_def py_def)

lemma first_demo_page_unmatched:
  "pid \<noteq> py ''1'' \<Longrightarrow>
   unmatched_page pid
     (Inr (question_page [demo_question (py ''1'') (py ''two-sum'')] (JBool True))) True"
  by (auto simp add: unmatched_page_def page_questions_def page_has_more_def question_page_def
      demo_question_def other_question_def py_def)

lemma scenario_page_questions:
  "page_questions (Inr scenario_page) = Some [demo_question (py ''42'') (py ''answer-slug'')]"
  by (simp add: page_questions_def scenario_page_def question_page_def py_def)

lemma scenario_page_unmatched:
  "pid \<noteq> py ''42'' \<Longrightarrow> unmatched_page pid (Inr scenario_page) False"
  by (auto simp add: unmatched_page_def page_questions_def page_has_more_def scenario_page_def
      question_page_def demo_question_def other_question_def py_def)

lemma demo_question_fields:
  "subscript (demo_question a b) (py ''questionFrontendId'') = Inr (JStr a)"
  "subscript (demo_question a b) (py ''titleSlug'') = Inr (JStr b)"
  by (simp_all add: demo_question_def py_def)

lemma universal_newlines_no_cr: "13 \<notin> set s \<Longrightarrow> universal_newlines s = s"
  by (induction s rule: universal_newlines.induct) auto

lemma cache_paths:
  "joinpath (parent (parse_path (py ''/p/1_Two_Sum/solution.py''))) (py ''problem_zh.md'')
     = Path (py ''/'') [py ''p'', py ''1_Two_Sum'', py ''problem_zh.md'']"
  "joinpath (parent (parse_path (py ''/p/1_Two_Sum/solution.py''))) (py ''problem.md'')
     = Path (py ''/'') [py ''p'', py ''1_Two_Sum'', py ''problem.md'']"
  by (simp_all add: joinpath_def parent_def parse_path_def splitroot_def py_def Let_def)

lemma latin_1_ascii: "latin_1 (ascii_bytes ''# Two Sum (zh)'') = Some (py ''# Two Sum (zh)'')"
  "latin_1 (ascii_bytes ''# Two Sum'') = Some (py ''# Two Sum'')"
  "latin_1 (ascii_bytes ''# unrelated notes'') = Some (py ''# unrelated notes'')"
  "latin_1 [97, 13, 10, 98] = Some [97, 13, 10, 98]"
  by (simp_all add: latin_1_def ascii_bytes_def py_def)







lemma solution_by_problem_id_str:
  assumes "string_typed srv"
    and "get_leetcode_question_solution_by_problem_id srv problem_id tr = Some (r, tr')"
  shows "is_str r"
proof -
  from assms(2) obtain slug tr1 where
    f: "find_leetcode_question_slug_by_problem_id srv problem_id tr = Some (slug, tr1)"
    by (auto simp: get_leetcode_question_solution_by_problem_id_def split: option.splits)
  show ?thesis
  proof (cases "py_eq slug (py ''No slug found'')")
    case True
    with f assms(2) show ?thesis
      by (auto simp: get_leetcode_question_solution_by_problem_id_def sentinel_is_str)
  next
    case False
    with f assms(2) have "(r, tr') = try_authors srv slug WANTED_AUTHORS tr1"
      by (simp add: get_leetcode_question_solution_by_problem_id_def)
    then have "r = fst (try_authors srv slug WANTED_AUTHORS tr1)"
      by (metis fst_conv)
    with try_authors_str [OF assms(1)] show ?thesis by simp
  qed
qed

lemma demo_server_string_typed: "string_typed demo_server"
  unfolding string_typed_def
proof (intro allI impI)
  fix h rq j
  assume "demo_server h rq = Inr j"
  then show "text_fields_are_strings j"
    by (cases "query rq")
      (auto simp add: demo_server_def scenario_page_def question_page_def demo_question_def
        demo_listing_def demo_article_def text_keys_def is_str_def py_def
        split: if_splits)
qed

lemma demo_pagination_ends: "pagination_ends demo_server pid tr"
proof -
  have "scan_page pid (page_response demo_server pid tr 0) \<noteq> Inr Continue"
  proof (cases "pid = py ''42''")
    case True
    then show ?thesis
      by (simp add: page_response_def demo_server_page scan_scenario_page_42)
  next
    case False
    then show ?thesis
      by (simp add: page_response_def demo_server_page scan_scenario_page_other)
  qed
  then show ?thesis unfolding pagination_ends_def by blast
qed

section \<open>Claims about the tools\<close>

text \<open>
  Claim C1. \<open>find_leetcode_question_slug_by_problem_id\<close> scans the question pages in
  order. Let the pages before page \<open>n\<close> be well formed, without a question whose
  \<open>questionFrontendId\<close> equals the input, and with a true \<open>hasMore\<close>. Then
  \<^item> if the questions of page \<open>n\<close> are questions with other identifiers followed by a
    question whose \<open>questionFrontendId\<close> equals the input, the result is the
    \<open>titleSlug\<close> of that first matching question;
  \<^item> if page \<open>n\<close> has no match and its \<open>hasMore\<close> is false, the result is
    \<open>"No slug found"\<close>;
  \<^item> if fetching or reading page \<open>n\<close> raises an exception, the result is
    \<open>"No slug found"\<close>.

  In each case the call returns (it does not raise) and the requests it made are exactly
  those for the pages \<open>0, \<dots>, n\<close>: none follows the page that decides. For every server
  whose first page is the one question \<open>{questionFrontendId: "42", titleSlug:
  "answer-slug"}\<close> with \<open>hasMore = false\<close>, the input \<open>"42"\<close> gives \<open>"answer-slug"\<close> and
  the input \<open>"43"\<close> gives \<open>"No slug found"\<close>, each after one request.
\<close>

theorem slug_resolver_exit_conditions:
  assumes earlier: "\<forall>k<n. unmatched_page pid (page_response srv pid tr k) True"
  shows "(\<forall>pre q rest s.
            page_questions (page_response srv pid tr n) = Some (pre @ q # rest)
            \<and> list_all (other_question pid) pre
            \<and> subscript q (py ''questionFrontendId'') = Inr (JStr pid)
            \<and> subscript q (py ''titleSlug'') = Inr s
            \<longrightarrow> find_leetcode_question_slug_by_problem_id srv pid tr
                  = Some (s, tr @ map (page_request pid) [0..<Suc n]))
       \<and> (unmatched_page pid (page_response srv pid tr n) False
            \<longrightarrow> find_leetcode_question_slug_by_problem_id srv pid tr
                  = Some (JStr (py ''No slug found''), tr @ map (page_request pid) [0..<Suc n]))
       \<and> (\<forall>e. scan_page pid (page_response srv pid tr n) = Inl e
            \<longrightarrow> find_leetcode_question_slug_by_problem_id srv pid tr
                  = Some (JStr (py ''No slug found''), tr @ map (page_request pid) [0..<Suc n]))
       \<and> (srv tr (page_request (py ''42'') 0) = Inr scenario_page
            \<longrightarrow> find_leetcode_question_slug_by_problem_id srv (py ''42'') tr
                  = Some (JStr (py ''answer-slug''), tr @ [page_request (py ''42'') 0]))
       \<and> (srv tr (page_request (py ''43'') 0) = Inr scenario_page
            \<longrightarrow> find_leetcode_question_slug_by_problem_id srv (py ''43'') tr
                  = Some (JStr (py ''No slug found''), tr @ [page_request (py ''43'') 0]))"
proof -
  have cont: "\<forall>k<n. scan_page pid (page_response srv pid tr k) = Inr Continue"
  proof (intro allI impI)
    fix k assume "k < n"
    with earlier have "unmatched_page pid (page_response srv pid tr k) True" by blast
    from scan_page_unmatched [OF this]
    show "scan_page pid (page_response srv pid tr k) = Inr Continue" by simp
  qed
  note exit = find_slug_after_pages [OF cont]
  have found: "find_leetcode_question_slug_by_problem_id srv pid tr
      = Some (s, tr @ map (page_request pid) [0..<Suc n])"
    if "page_questions (page_response srv pid tr n) = Some (pre @ q # rest)"
      and "list_all (other_question pid) pre"
      and "subscript q (py ''questionFrontendId'') = Inr (JStr pid)"
      and "subscript q (py ''titleSlug'') = Inr s" for pre q rest s
    using exit scan_page_match [OF that] by simp
  have exhausted: "find_leetcode_question_slug_by_problem_id srv pid tr
      = Some (JStr (py ''No slug found''), tr @ map (page_request pid) [0..<Suc n])"
    if "unmatched_page pid (page_response srv pid tr n) False"
    using exit scan_page_unmatched [OF that] by simp
  have failed: "find_leetcode_question_slug_by_problem_id srv pid tr
      = Some (JStr (py ''No slug found''), tr @ map (page_request pid) [0..<Suc n])"
    if "scan_page pid (page_response srv pid tr n) = Inl e" for e
    using exit that by simp
  have s42: "find_leetcode_question_slug_by_problem_id srv (py ''42'') tr
      = Some (JStr (py ''answer-slug''), tr @ [page_request (py ''42'') 0])"
    if "srv tr (page_request (py ''42'') 0) = Inr scenario_page"
    using find_slug_after_pages [of 0 "py ''42''" srv tr] that
    by (simp add: page_response_def scan_scenario_page_42)
  have s43: "find_leetcode_question_slug_by_problem_id srv (py ''43'') tr
      = Some (JStr (py ''No slug found''), tr @ [page_request (py ''43'') 0])"
    if "srv tr (page_request (py ''43'') 0) = Inr scenario_page"
  proof -
    have "py ''43'' \<noteq> py ''42''" by (simp add: py_def)
    then show ?thesis
      using find_slug_after_pages [of 0 "py ''43''" srv tr] that
      by (simp add: page_response_def scan_scenario_page_other)
  qed
  from found exhausted failed s42 s43 show ?thesis by blast
qed

text \<open>
  The three exits on the second page of a server with two pages: a match, the end of the
  list, and a failed request.
\<close>

theorem slug_resolver_exit_conditions_witness:
  "unmatched_page (py ''42'') (page_response two_page_server (py ''42'') [] 0) True
   \<and> find_leetcode_question_slug_by_problem_id two_page_server (py ''42'') []
       = Some (JStr (py ''answer-slug''), [page_request (py ''42'') 0, page_request (py ''42'') 1])
   \<and> find_leetcode_question_slug_by_problem_id two_page_server (py ''43'') []
       = Some (JStr (py ''No slug found''), [page_request (py ''43'') 0, page_request (py ''43'') 1])
   \<and> find_leetcode_question_slug_by_problem_id failing_second_page_server (py ''42'') []
       = Some (JStr (py ''No slug found''), [page_request (py ''42'') 0, page_request (py ''42'') 1])"
proof -
  have ne: "py ''42'' \<noteq> py ''1''" "py ''43'' \<noteq> py ''1''" "py ''43'' \<noteq> py ''42''"
    by (simp_all add: py_def)
  have p0: "unmatched_page pid (page_response two_page_server pid [] 0) True"
    "unmatched_page pid (page_response failing_second_page_server pid [] 0) True"
    if "pid \<noteq> py ''1''" for pid
    using that by (simp_all add: page_response_def two_page_server_pages first_demo_page_unmatched)
  have h42: "\<forall>k<Suc 0. unmatched_page (py ''42'') (page_response two_page_server (py ''42'') [] k) True"
    using p0(1) [OF ne(1)] by simp
  have h43: "\<forall>k<Suc 0. unmatched_page (py ''43'') (page_response two_page_server (py ''43'') [] k) True"
    using p0(1) [OF ne(2)] by simp
  have hf: "\<forall>k<Suc 0. unmatched_page (py ''42'')
      (page_response failing_second_page_server (py ''42'') [] k) True"
    using p0(2) [OF ne(1)] by simp
  have r1: "page_response two_page_server pid [] (Suc 0) = Inr scenario_page" for pid
    by (simp add: page_response_def two_page_server_pages)
  have r2: "scan_page pid (page_response failing_second_page_server pid [] (Suc 0))
      = Inl HTTPStatusError" for pid
    by (simp add: page_response_def two_page_server_pages scan_page_def)
  have a: "find_leetcode_question_slug_by_problem_id two_page_server (py ''42'') []
       = Some (JStr (py ''answer-slug''), [page_request (py ''42'') 0, page_request (py ''42'') 1])"
    using slug_resolver_exit_conditions [OF h42, THEN conjunct1, rule_format,
        of "[]" "demo_question (py ''42'') (py ''answer-slug'')" "[]" "JStr (py ''answer-slug'')"]
    by (simp add: r1 scenario_page_questions demo_question_fields)
  have b: "find_leetcode_question_slug_by_problem_id two_page_server (py ''43'') []
       = Some (JStr (py ''No slug found''), [page_request (py ''43'') 0, page_request (py ''43'') 1])"
    using slug_resolver_exit_conditions [OF h43, THEN conjunct2, THEN conjunct1]
    by (simp add: r1 scenario_page_unmatched [OF ne(3)])
  have c: "find_leetcode_question_slug_by_problem_id failing_second_page_server (py ''42'') []
       = Some (JStr (py ''No slug found''), [page_request (py ''42'') 0, page_request (py ''42'') 1])"
    using slug_resolver_exit_conditions [OF hf, THEN conjunct2, THEN conjunct2, THEN conjunct1,
        rule_format, of HTTPStatusError]
    by (simp add: r2)
  from p0(1) [OF ne(1)] a b c show ?thesis by simp
qed

text \<open>
  Claim C2, as it holds for the code. Whenever the page search for the identifier ends
  (some page holds a match, raises, or reports a false \<open>hasMore\<close>), the tools
  \<open>find_leetcode_question_slug_by_problem_id\<close> and
  \<open>get_leetcode_question_solution_by_problem_id\<close> return, and so do
  \<open>find_leetcode_question_slug\<close> and \<open>get_leetcode_question_solution\<close> on every file
  path whose folder gives that identifier. \<open>get_leetcode_question_desc_by_problem_id\<close>
  returns for every server, after its one request. None of the five raises: their
  results carry no exception. The value returned is a string whenever the server sends
  strings in the fields \<open>titleSlug\<close>, \<open>content\<close> and \<open>translatedContent\<close>. Nothing is
  said here about \<open>get_leetcode_question_desc\<close> on a path without a cached file.
\<close>

theorem tools_total_when_pagination_ends:
  "(pagination_ends srv problem_id tr \<longrightarrow>
      (\<exists>r tr'. find_leetcode_question_slug_by_problem_id srv problem_id tr = Some (r, tr')
            \<and> (string_typed srv \<longrightarrow> is_str r))
       \<and> (\<exists>r tr'. get_leetcode_question_solution_by_problem_id srv problem_id tr = Some (r, tr')
            \<and> (string_typed srv \<longrightarrow> is_str r))
       \<and> (\<forall>file_path.
            folder_name_to_problem_id (name (parent (parse_path file_path))) = problem_id \<longrightarrow>
              (\<exists>r tr'. find_leetcode_question_slug srv file_path tr = Some (r, tr')
                 \<and> (string_typed srv \<longrightarrow> is_str r))
            \<and> (\<exists>r tr'. get_leetcode_question_solution srv file_path tr = Some (r, tr')
                 \<and> (string_typed srv \<longrightarrow> is_str r))))
   \<and> (\<exists>r. get_leetcode_question_desc_by_problem_id LANGUAGE srv problem_id tr
              = (r, tr @ [fst (content_query LANGUAGE problem_id)])
          \<and> (string_typed srv \<longrightarrow> is_str r))"
proof -
  have main: "(\<exists>r tr'. find_leetcode_question_slug_by_problem_id srv problem_id tr = Some (r, tr')
            \<and> (string_typed srv \<longrightarrow> is_str r))
       \<and> (\<exists>r tr'. get_leetcode_question_solution_by_problem_id srv problem_id tr = Some (r, tr')
            \<and> (string_typed srv \<longrightarrow> is_str r))
       \<and> (\<forall>file_path.
            folder_name_to_problem_id (name (parent (parse_path file_path))) = problem_id \<longrightarrow>
              (\<exists>r tr'. find_leetcode_question_slug srv file_path tr = Some (r, tr')
                 \<and> (string_typed srv \<longrightarrow> is_str r))
            \<and> (\<exists>r tr'. get_leetcode_question_solution srv file_path tr = Some (r, tr')
                 \<and> (string_typed srv \<longrightarrow> is_str r)))"
    if ends: "pagination_ends srv problem_id tr"
  proof -
    from find_slug_terminates [OF ends] obtain slug tr1 where
      f: "find_leetcode_question_slug_by_problem_id srv problem_id tr = Some (slug, tr1)"
      by blast
    have fs: "is_str slug" if "string_typed srv"
      using slug_page_loop_str [OF that, of problem_id 0 tr "(slug, tr1)"] f
      by (simp add: find_leetcode_question_slug_by_problem_id_def)
    have "\<exists>r tr2. get_leetcode_question_solution_by_problem_id srv problem_id tr = Some (r, tr2)"
      using f
      by (cases "try_authors srv slug WANTED_AUTHORS tr1")
        (simp add: get_leetcode_question_solution_by_problem_id_def)
    then obtain r tr2 where
      s: "get_leetcode_question_solution_by_problem_id srv problem_id tr = Some (r, tr2)"
      by blast
    have ss: "is_str r" if "string_typed srv"
      using solution_by_problem_id_str [OF that s] .
    have a: "\<exists>r tr'. find_leetcode_question_slug_by_problem_id srv problem_id tr = Some (r, tr')
        \<and> (string_typed srv \<longrightarrow> is_str r)"
      using f fs by blast
    have b: "\<exists>r tr'. get_leetcode_question_solution_by_problem_id srv problem_id tr = Some (r, tr')
        \<and> (string_typed srv \<longrightarrow> is_str r)"
      using s ss by blast
    have c: "(\<exists>r tr'. find_leetcode_question_slug srv file_path tr = Some (r, tr')
           \<and> (string_typed srv \<longrightarrow> is_str r))
        \<and> (\<exists>r tr'. get_leetcode_question_solution srv file_path tr = Some (r, tr')
           \<and> (string_typed srv \<longrightarrow> is_str r))"
      if "folder_name_to_problem_id (name (parent (parse_path file_path))) = problem_id"
      for file_path
      using a b that
      by (simp add: find_leetcode_question_slug_def get_leetcode_question_solution_def Let_def)
    from a b c show ?thesis by blast
  qed
  let ?d = "get_leetcode_question_desc_by_problem_id LANGUAGE srv problem_id tr"
  have tr: "snd ?d = tr @ [fst (content_query LANGUAGE problem_id)]"
    by (cases "content_query LANGUAGE problem_id")
      (simp add: get_leetcode_question_desc_by_problem_id_def
        get_leetcode_question_desc_by_slug_def post_def split: sum.splits)
  have str: "string_typed srv \<longrightarrow> is_str (fst ?d)"
    by (simp add: get_leetcode_question_desc_by_problem_id_def desc_by_slug_str)
  have "?d = (fst ?d, tr @ [fst (content_query LANGUAGE problem_id)])"
    using tr by (simp add: prod_eq_iff)
  with str have d: "\<exists>r. ?d = (r, tr @ [fst (content_query LANGUAGE problem_id)])
      \<and> (string_typed srv \<longrightarrow> is_str r)" by blast
  from main d show ?thesis by blast
qed

text \<open>The five tools on a server whose search ends on the first page.\<close>

theorem tools_total_when_pagination_ends_witness:
  "pagination_ends demo_server (py ''42'') []
   \<and> string_typed demo_server
   \<and> folder_name_to_problem_id (name (parent (parse_path (py ''/p/1_42/sol.py'')))) = py ''42''
   \<and> (\<exists>r tr'. find_leetcode_question_slug_by_problem_id demo_server (py ''42'') [] = Some (r, tr')
         \<and> is_str r)
   \<and> (\<exists>r tr'. get_leetcode_question_solution_by_problem_id demo_server (py ''42'') []
         = Some (r, tr') \<and> is_str r)
   \<and> (\<exists>r tr'. find_leetcode_question_slug demo_server (py ''/p/1_42/sol.py'') [] = Some (r, tr')
         \<and> is_str r)
   \<and> (\<exists>r tr'. get_leetcode_question_solution demo_server (py ''/p/1_42/sol.py'') []
         = Some (r, tr') \<and> is_str r)
   \<and> (\<exists>r. get_leetcode_question_desc_by_problem_id (py ''zh-CN'') demo_server (py ''42'') []
         = (r, [fst (content_query (py ''zh-CN'') (py ''42''))]) \<and> is_str r)"
proof -
  note p = demo_pagination_ends [of "py ''42''" "[]"]
  note t = demo_server_string_typed
  note k = keyword_of_plain_name(3)
  from tools_total_when_pagination_ends [of demo_server "py ''42''" "[]" "py ''zh-CN''"] p t k
  have "(\<exists>r tr'. find_leetcode_question_slug_by_problem_id demo_server (py ''42'') [] = Some (r, tr')
         \<and> is_str r)
   \<and> (\<exists>r tr'. get_leetcode_question_solution_by_problem_id demo_server (py ''42'') []
         = Some (r, tr') \<and> is_str r)
   \<and> (\<exists>r tr'. find_leetcode_question_slug demo_server (py ''/p/1_42/sol.py'') [] = Some (r, tr')
         \<and> is_str r)
   \<and> (\<exists>r tr'. get_leetcode_question_solution demo_server (py ''/p/1_42/sol.py'') []
         = Some (r, tr') \<and> is_str r)
   \<and> (\<exists>r. get_leetcode_question_desc_by_problem_id (py ''zh-CN'') demo_server (py ''42'') []
         = (r, [fst (content_query (py ''zh-CN'') (py ''42''))]) \<and> is_str r)"
    by simp
  with p t k show ?thesis by blast
qed

text \<open>
  Claim C2 as stated fails. Against a server that answers every page request with an
  empty page and \<open>hasMore = true\<close>, every single request terminates, yet the slug search
  and the solution search on the identifier \<open>"1"\<close> do not return. And when the server
  sends \<open>null\<close> for \<open>translatedContent\<close>, \<open>get_leetcode_question_desc_by_problem_id\<close>
  returns \<open>None\<close>, which is not a string.
\<close>

theorem tools_total_counterexample:
  "find_leetcode_question_slug_by_problem_id endless_server (py ''1'') [] = None
   \<and> get_leetcode_question_solution_by_problem_id endless_server (py ''1'') [] = None
   \<and> get_leetcode_question_desc_by_problem_id (py ''zh-CN'') null_content_server (py ''two-sum'') []
       = (JNull, [fst (content_query (py ''zh-CN'') (py ''two-sum''))])
   \<and> \<not> is_str JNull"
proof -
  have a: "find_leetcode_question_slug_by_problem_id endless_server (py ''1'') [] = None"
    by (simp add: find_leetcode_question_slug_by_problem_id_def endless_server_never_returns)
  then have b: "get_leetcode_question_solution_by_problem_id endless_server (py ''1'') [] = None"
    by (simp add: get_leetcode_question_solution_by_problem_id_def)
  have c: "get_leetcode_question_desc_by_problem_id (py ''zh-CN'') null_content_server
      (py ''two-sum'') [] = (JNull, [fst (content_query (py ''zh-CN'') (py ''two-sum''))])"
    by (simp add: get_leetcode_question_desc_by_problem_id_def
        get_leetcode_question_desc_by_slug_def content_query_def post_def
        null_content_server_def py_def)
  have d: "\<not> is_str JNull" by (simp add: is_str_def)
  from a b c d show ?thesis by simp
qed

text \<open>
  Claim C3. The claim says that \<open>get_leetcode_question_desc\<close>, on a path without a
  cached file, resolves the slug and then fetches the content through
  \<open>_get_leetcode_question_desc_by_slug\<close>. The code calls itself with the slug as the
  file path instead (line 357), so
  \<^item> in every call that returns, all the requests made are question-list requests:
    no content query is ever sent;
  \<^item> on the path \<open>/p/1_42/sol.py\<close>, without any file, against a server that knows the
    question 42 and its description, the call does not return: the slug
    \<open>"answer-slug"\<close> is found, then taken for a path in the working directory, whose
    folder name is empty, and the search for the empty identifier gives
    \<open>"No slug found"\<close>, which is taken for a path again, for ever;
  \<^item> the slug search and \<open>_get_leetcode_question_desc_by_slug\<close> on its result, which is
    what the claim describes, give the description after two requests.
\<close>

theorem desc_never_queries_content:
  "(\<forall>y. get_leetcode_question_desc LANGUAGE fs srv file_path tr = Some y \<longrightarrow>
      (\<exists>extra. snd y = tr @ extra
         \<and> list_all (\<lambda>rq. query rq = QUESTION_KEYWORDS_QUERY) extra))
   \<and> get_leetcode_question_desc (py ''zh-CN'') no_files demo_server
        (JStr (py ''/p/1_42/sol.py'')) [] = None
   \<and> find_leetcode_question_slug demo_server (py ''/p/1_42/sol.py'') []
        = Some (JStr (py ''answer-slug''), [page_request (py ''42'') 0])
   \<and> get_leetcode_question_desc_by_slug (py ''zh-CN'') demo_server (py ''answer-slug'')
        [page_request (py ''42'') 0]
        = (JStr (py ''description (zh)''),
           [page_request (py ''42'') 0, fst (content_query (py ''zh-CN'') (py ''answer-slug''))])"
proof -
  have a: "\<forall>y. get_leetcode_question_desc LANGUAGE fs srv file_path tr = Some y \<longrightarrow>
      (\<exists>extra. snd y = tr @ extra
         \<and> list_all (\<lambda>rq. query rq = QUESTION_KEYWORDS_QUERY) extra)"
    using desc_requests_are_page_queries by blast
  have b: "get_leetcode_question_desc (py ''zh-CN'') no_files demo_server
        (JStr (py ''/p/1_42/sol.py'')) [] = None"
    by (rule desc_at_failing_input)
  have c: "find_leetcode_question_slug demo_server (py ''/p/1_42/sol.py'') []
        = Some (JStr (py ''answer-slug''), [page_request (py ''42'') 0])"
    unfolding find_leetcode_question_slug_def Let_def keyword_of_plain_name
    using demo_find_42 [of "[]"] by simp
  have d: "get_leetcode_question_desc_by_slug (py ''zh-CN'') demo_server (py ''answer-slug'')
        [page_request (py ''42'') 0]
        = (JStr (py ''description (zh)''),
           [page_request (py ''42'') 0, fst (content_query (py ''zh-CN'') (py ''answer-slug''))])"
    by (simp add: get_leetcode_question_desc_by_slug_def content_query_def post_def
        demo_server_def py_def)
  from a b c d show ?thesis by simp
qed

text \<open>
  A call that returns without a cached file next to the source: with a file
  \<open>problem_zh.md\<close> in the working directory, the slug is taken for a path there and
  that unrelated file is returned, after the one question-list request.
\<close>

theorem desc_never_queries_content_witness:
  "get_leetcode_question_desc (py ''zh-CN'') working_directory_file demo_server
      (JStr (py ''/p/1_42/sol.py'')) []
     = Some (Inr (JStr (py ''# unrelated notes'')), [page_request (py ''42'') 0])
   \<and> (\<exists>extra. [page_request (py ''42'') 0] = [] @ extra
         \<and> list_all (\<lambda>rq. query rq = QUESTION_KEYWORDS_QUERY) extra)"
proof -
  have f1: "find_leetcode_question_slug demo_server (py ''/p/1_42/sol.py'') [] =
      Some (JStr (py ''answer-slug''), [page_request (py ''42'') 0])"
    unfolding find_leetcode_question_slug_def Let_def keyword_of_plain_name
    using demo_find_42 [of "[]"] by simp
  have p1: "joinpath (parent (parse_path (py ''/p/1_42/sol.py''))) (py ''problem_zh.md'')
      = Path (py ''/'') [py ''p'', py ''1_42'', py ''problem_zh.md'']"
    and p2: "joinpath (parent (parse_path (py ''answer-slug''))) (py ''problem_zh.md'')
      = Path [] [py ''problem_zh.md'']"
    by (simp_all add: joinpath_def parent_def parse_path_def splitroot_def py_def Let_def)
  have e1: "\<not> path_exists working_directory_file
      (Path (py ''/'') [py ''p'', py ''1_42'', py ''problem_zh.md''])"
    by (simp add: path_exists_def working_directory_file_def py_def)
  have "get_leetcode_question_desc (py ''zh-CN'') working_directory_file demo_server
      (JStr (py ''/p/1_42/sol.py'')) []
      = get_leetcode_question_desc (py ''zh-CN'') working_directory_file demo_server
          (JStr (py ''answer-slug'')) [page_request (py ''42'') 0]"
    by (subst get_leetcode_question_desc.simps) (simp add: Let_def p1 e1 f1)
  also have "\<dots> = Some (Inr (JStr (py ''# unrelated notes'')), [page_request (py ''42'') 0])"
  proof -
    have e2: "entries working_directory_file (Path [] [py ''problem_zh.md''])
        = Some (File (ascii_bytes ''# unrelated notes''))"
      and d2: "decode working_directory_file = latin_1"
      by (simp_all add: working_directory_file_def)
    have nocr: "13 \<notin> set (py ''# unrelated notes'')" by (simp add: py_def)
    show ?thesis
      by (subst get_leetcode_question_desc.simps)
        (simp add: Let_def p2 path_exists_def read_text_def e2 d2 latin_1_ascii
          universal_newlines_no_cr nocr)
  qed
  finally have run: "get_leetcode_question_desc (py ''zh-CN'') working_directory_file demo_server
      (JStr (py ''/p/1_42/sol.py'')) []
     = Some (Inr (JStr (py ''# unrelated notes'')), [page_request (py ''42'') 0])" .
  from desc_never_queries_content [of "py ''zh-CN''" working_directory_file demo_server
      "JStr (py ''/p/1_42/sol.py'')" "[]"] run
  have "\<exists>extra. [page_request (py ''42'') 0] = [] @ extra
         \<and> list_all (\<lambda>rq. query rq = QUESTION_KEYWORDS_QUERY) extra"
    by fastforce
  with run show ?thesis by simp
qed



text \<open>
  Claim C5. When the slug resolution returns \<open>"No slug found"\<close>,
  \<open>get_leetcode_question_solution_by_problem_id\<close> returns \<open>"No solution article
  found"\<close> with the trace the resolution left: the requests made are page requests only,
  and none of them is an article-listing request.
\<close>

theorem solution_short_circuits_without_slug:
  assumes "find_leetcode_question_slug_by_problem_id srv problem_id tr
      = Some (JStr (py ''No slug found''), tr')"
  shows "get_leetcode_question_solution_by_problem_id srv problem_id tr
      = Some (JStr (py ''No solution article found''), tr')
    \<and> (\<exists>n. tr' = tr @ map (page_request problem_id) [0..<Suc n])
    \<and> filter is_listing_request (drop (length tr) tr') = []"
proof -
  from assms have "slug_page_loop srv problem_id 0 tr = Some (JStr (py ''No slug found''), tr')"
    by (simp add: find_leetcode_question_slug_by_problem_id_def)
  from slug_page_loop_trace [OF this] obtain n where
    tr': "tr' = tr @ map (page_request problem_id) [0..<Suc n]" by auto
  have "filter is_listing_request (map (page_request problem_id) [0..<Suc n]) = []"
    by (simp add: filter_empty_conv is_listing_request_def page_request_def del: upt_Suc)
  with tr' have "filter is_listing_request (drop (length tr) tr') = []" by simp
  moreover from assms have "get_leetcode_question_solution_by_problem_id srv problem_id tr
      = Some (JStr (py ''No solution article found''), tr')"
    by (simp add: get_leetcode_question_solution_by_problem_id_def py_eq_def)
  ultimately show ?thesis using tr' by blast
qed

text \<open>The identifier \<open>"43"\<close> on a server that only knows the question 42.\<close>

theorem solution_short_circuits_without_slug_witness:
  "find_leetcode_question_slug_by_problem_id demo_server (py ''43'') []
      = Some (JStr (py ''No slug found''), [page_request (py ''43'') 0])
   \<and> get_leetcode_question_solution_by_problem_id demo_server (py ''43'') []
      = Some (JStr (py ''No solution article found''), [page_request (py ''43'') 0])
   \<and> filter is_listing_request [page_request (py ''43'') 0] = []"
proof -
  have "py ''43'' \<noteq> py ''42''" by (simp add: py_def)
  from demo_find_other [OF this, of "[]"]
  have f: "find_leetcode_question_slug_by_problem_id demo_server (py ''43'') []
      = Some (JStr (py ''No slug found''), [page_request (py ''43'') 0])" by simp
  from solution_short_circuits_without_slug [OF f] f show ?thesis by simp
qed

text \<open>
  Claim C6, as it holds for the code. When the directory of the file path holds the
  cache file (\<open>problem_zh.md\<close> if \<open>LANGUAGE\<close> is \<open>"zh-CN"\<close>, \<open>problem.md\<close> otherwise),
  \<open>get_leetcode_question_desc\<close> makes no request at all: it returns with the trace
  unchanged, whatever is at that path. When the file's bytes decode under the locale's
  codec, the result is the decoded text with every \<open>CR LF\<close> and every other \<open>CR\<close>
  turned into \<open>LF\<close>; it is the decoded text itself when that holds no \<open>CR\<close>.
\<close>

theorem desc_returns_cached_text:
  "(path_exists fs (joinpath (parent (parse_path file_path))
        (if LANGUAGE = py ''zh-CN'' then py ''problem_zh.md'' else py ''problem.md''))
      \<longrightarrow> (\<exists>r. get_leetcode_question_desc LANGUAGE fs srv (JStr file_path) tr = Some (r, tr)))
   \<and> (\<forall>raw decoded.
        entries fs (joinpath (parent (parse_path file_path))
          (if LANGUAGE = py ''zh-CN'' then py ''problem_zh.md'' else py ''problem.md''))
          = Some (File raw)
        \<and> decode fs raw = Some decoded
      \<longrightarrow> get_leetcode_question_desc LANGUAGE fs srv (JStr file_path) tr
            = Some (Inr (JStr (universal_newlines decoded)), tr)
          \<and> (13 \<notin> set decoded
              \<longrightarrow> get_leetcode_question_desc LANGUAGE fs srv (JStr file_path) tr
                    = Some (Inr (JStr decoded), tr)))"
proof -
  let ?cache = "joinpath (parent (parse_path file_path))
      (if LANGUAGE = py ''zh-CN'' then py ''problem_zh.md'' else py ''problem.md'')"
  have hit: "get_leetcode_question_desc LANGUAGE fs srv (JStr file_path) tr
      = Some (read_text fs ?cache, tr)" if "path_exists fs ?cache"
    using that by (subst get_leetcode_question_desc.simps) (simp add: Let_def)
  have a: "path_exists fs ?cache
      \<longrightarrow> (\<exists>r. get_leetcode_question_desc LANGUAGE fs srv (JStr file_path) tr = Some (r, tr))"
    using hit by blast
  have b: "get_leetcode_question_desc LANGUAGE fs srv (JStr file_path) tr
            = Some (Inr (JStr (universal_newlines decoded)), tr)
          \<and> (13 \<notin> set decoded
              \<longrightarrow> get_leetcode_question_desc LANGUAGE fs srv (JStr file_path) tr
                    = Some (Inr (JStr decoded), tr))"
    if "entries fs ?cache = Some (File raw)" and "decode fs raw = Some decoded" for raw decoded
  proof -
    from that(1) have "path_exists fs ?cache" by (simp add: path_exists_def)
    from hit [OF this] that show ?thesis
      by (simp add: read_text_def universal_newlines_no_cr)
  qed
  from a b show ?thesis by blast
qed

text \<open>Both language settings, on a directory that holds both files, under Latin-1.\<close>

theorem desc_returns_cached_text_witness:
  "get_leetcode_question_desc (py ''zh-CN'') cached_files endless_server
     (JStr (py ''/p/1_Two_Sum/solution.py'')) [] = Some (Inr (JStr (py ''# Two Sum (zh)'')), [])
   \<and> get_leetcode_question_desc (py ''en'') cached_files endless_server
     (JStr (py ''/p/1_Two_Sum/solution.py'')) [] = Some (Inr (JStr (py ''# Two Sum'')), [])"
proof -
  have ne: "py ''en'' \<noteq> py ''zh-CN''" by (simp add: py_def)
  have zh: "entries cached_files (joinpath (parent (parse_path (py ''/p/1_Two_Sum/solution.py'')))
      (if py ''zh-CN'' = py ''zh-CN'' then py ''problem_zh.md'' else py ''problem.md''))
      = Some (File (ascii_bytes ''# Two Sum (zh)''))"
    by (simp add: cache_paths cached_files_def)
  have "Path (py ''/'') [py ''p'', py ''1_Two_Sum'', py ''problem.md'']
      \<noteq> Path (py ''/'') [py ''p'', py ''1_Two_Sum'', py ''problem_zh.md'']"
    by (simp add: py_def)
  then have en: "entries cached_files (joinpath (parent (parse_path (py ''/p/1_Two_Sum/solution.py'')))
      (if py ''en'' = py ''zh-CN'' then py ''problem_zh.md'' else py ''problem.md''))
      = Some (File (ascii_bytes ''# Two Sum''))"
    by (simp add: cache_paths cached_files_def ne)
  have d: "decode cached_files = latin_1" by (simp add: cached_files_def)
  have cr: "13 \<notin> set (py ''# Two Sum (zh)'')" "13 \<notin> set (py ''# Two Sum'')"
    by (simp_all add: py_def)
  have "get_leetcode_question_desc (py ''zh-CN'') cached_files endless_server
     (JStr (py ''/p/1_Two_Sum/solution.py'')) [] = Some (Inr (JStr (py ''# Two Sum (zh)'')), [])"
    using desc_returns_cached_text [of cached_files "py ''/p/1_Two_Sum/solution.py''"
        "py ''zh-CN''" endless_server "[]", THEN conjunct2, rule_format,
        of "ascii_bytes ''# Two Sum (zh)''" "py ''# Two Sum (zh)''"]
      zh cr(1) by (simp add: d latin_1_ascii universal_newlines_no_cr)
  moreover have "get_leetcode_question_desc (py ''en'') cached_files endless_server
     (JStr (py ''/p/1_Two_Sum/solution.py'')) [] = Some (Inr (JStr (py ''# Two Sum'')), [])"
    using desc_returns_cached_text [of cached_files "py ''/p/1_Two_Sum/solution.py''"
        "py ''en''" endless_server "[]", THEN conjunct2, rule_format,
        of "ascii_bytes ''# Two Sum''" "py ''# Two Sum''"]
      en cr(2) by (simp add: d latin_1_ascii universal_newlines_no_cr)
  ultimately show ?thesis by simp
qed

text \<open>
  Claim C6 as stated fails on a cache file with a Windows line ending: for the four bytes
  \<open>a CR LF b\<close>, which Latin-1 decodes to the same four characters, the result is the
  three characters \<open>a LF b\<close>, not the file's contents as they are.
\<close>

theorem desc_cached_not_verbatim_counterexample:
  "entries crlf_cached_file
       (joinpath (parent (parse_path (py ''/p/1_Two_Sum/solution.py''))) (py ''problem_zh.md''))
     = Some (File [97, 13, 10, 98])
   \<and> decode crlf_cached_file [97, 13, 10, 98] = Some [97, 13, 10, 98]
   \<and> get_leetcode_question_desc (py ''zh-CN'') crlf_cached_file endless_server
        (JStr (py ''/p/1_Two_Sum/solution.py'')) [] = Some (Inr (JStr [97, 10, 98]), [])
   \<and> JStr [97, 10, 98] \<noteq> JStr [97, 13, 10, 98]"
proof -
  have e: "entries crlf_cached_file
       (joinpath (parent (parse_path (py ''/p/1_Two_Sum/solution.py''))) (py ''problem_zh.md''))
     = Some (File [97, 13, 10, 98])"
    by (simp add: cache_paths crlf_cached_file_def)
  have d: "decode crlf_cached_file [97, 13, 10, 98] = Some [97, 13, 10, 98]"
    by (simp add: crlf_cached_file_def latin_1_ascii)
  have "get_leetcode_question_desc (py ''zh-CN'') crlf_cached_file endless_server
        (JStr (py ''/p/1_Two_Sum/solution.py'')) [] = Some (Inr (JStr [97, 10, 98]), [])"
    by (subst get_leetcode_question_desc.simps)
      (simp add: Let_def path_exists_def read_text_def e d)
  with e d show ?thesis by simp
qed

text \<open>
  Claim C7, as it holds for the code. \<open>get_leetcode_question_desc_by_problem_id\<close> makes
  exactly one request, the content query with the problem identifier as the
  \<open>titleSlug\<close> variable (no page request, so no slug resolution). If the request fails,
  or reading \<open>data\<close>, \<open>question\<close> and then the content field (\<open>translatedContent\<close> or
  \<open>content\<close>) from the body raises (a key is missing, or \<open>data\<close> or \<open>question\<close> is
  \<open>null\<close> or not an object), the result is \<open>"No description found"\<close>; otherwise it is
  the value of the content field, whatever that is. The call always returns a value.
\<close>

theorem desc_by_problem_id_direct:
  "snd (get_leetcode_question_desc_by_problem_id LANGUAGE srv problem_id tr)
     = tr @ [fst (content_query LANGUAGE problem_id)]
   \<and> variables (fst (content_query LANGUAGE problem_id))
       = JObj [(py ''titleSlug'', JStr problem_id)]
   \<and> (query (fst (content_query LANGUAGE problem_id)) = QUESTION_DESC_CN_QUERY
        \<or> query (fst (content_query LANGUAGE problem_id)) = QUESTION_DESC_QUERY)
   \<and> (\<forall>e. srv tr (fst (content_query LANGUAGE problem_id)) = Inl e
        \<longrightarrow> fst (get_leetcode_question_desc_by_problem_id LANGUAGE srv problem_id tr)
              = JStr (py ''No description found''))
   \<and> (\<forall>j e. srv tr (fst (content_query LANGUAGE problem_id)) = Inr j
          \<and> subscripts j [py ''data'', py ''question'', snd (content_query LANGUAGE problem_id)]
              = Inl e
        \<longrightarrow> fst (get_leetcode_question_desc_by_problem_id LANGUAGE srv problem_id tr)
              = JStr (py ''No description found''))
   \<and> (\<forall>j v. srv tr (fst (content_query LANGUAGE problem_id)) = Inr j
          \<and> subscripts j [py ''data'', py ''question'', snd (content_query LANGUAGE problem_id)]
              = Inr v
        \<longrightarrow> fst (get_leetcode_question_desc_by_problem_id LANGUAGE srv problem_id tr) = v)"
proof -
  obtain rq key where cq: "content_query LANGUAGE problem_id = (rq, key)"
    by (cases "content_query LANGUAGE problem_id")
  have run: "get_leetcode_question_desc_by_problem_id LANGUAGE srv problem_id tr =
      (case and_then (srv tr rq) (\<lambda>j. subscripts j [py ''data'', py ''question'', key]) of
         Inl e \<Rightarrow> JStr (py ''No description found'')
       | Inr v \<Rightarrow> v, tr @ [rq])"
    by (simp add: get_leetcode_question_desc_by_problem_id_def
        get_leetcode_question_desc_by_slug_def cq post_def split: sum.splits)
  have vars: "variables rq = JObj [(py ''titleSlug'', JStr problem_id)]"
    and q: "query rq = QUESTION_DESC_CN_QUERY \<or> query rq = QUESTION_DESC_QUERY"
    using cq by (auto simp: content_query_def split: if_splits)
  show ?thesis
    unfolding cq fst_conv snd_conv run using vars q by (simp del: subscripts.simps)
qed

text \<open>A failed request, a body of the wrong shape, and a successful answer.\<close>

theorem desc_by_problem_id_direct_witness:
  "get_leetcode_question_desc_by_problem_id (py ''zh-CN'') failing_second_page_server (py ''1'') []
     = (JStr (py ''No description found''), [fst (content_query (py ''zh-CN'') (py ''1''))])
   \<and> get_leetcode_question_desc_by_problem_id (py ''zh-CN'') endless_server (py ''1'') []
     = (JStr (py ''No description found''), [fst (content_query (py ''zh-CN'') (py ''1''))])
   \<and> get_leetcode_question_desc_by_problem_id (py ''zh-CN'') demo_server (py ''1'') []
     = (JStr (py ''description (zh)''), [fst (content_query (py ''zh-CN'') (py ''1''))])"
proof -
  let ?rq = "fst (content_query (py ''zh-CN'') (py ''1''))"
  have key: "snd (content_query (py ''zh-CN'') (py ''1'')) = py ''translatedContent''"
    and qr: "query ?rq = QUESTION_DESC_CN_QUERY"
    and vr: "variables ?rq = JObj [(py ''titleSlug'', JStr (py ''1''))]"
    by (simp_all add: content_query_def)
  have r1: "failing_second_page_server [] ?rq = Inl HTTPStatusError"
    unfolding failing_second_page_server_def vr by (simp add: py_def)
  have r2: "endless_server [] ?rq = Inr (question_page [] (JBool True))"
    by (simp add: endless_server_def)
  have s2: "subscripts (question_page [] (JBool True))
      [py ''data'', py ''question'', py ''translatedContent''] = Inl KeyError"
    by (simp add: question_page_def py_def)
  have r3: "demo_server [] ?rq = Inr (JObj [(py ''data'', JObj [(py ''question'',
            JObj [(py ''translatedTitle'', JNull),
                  (py ''translatedContent'', JStr (py ''description (zh)''))])])])"
    by (simp add: demo_server_def qr)
  have s3: "subscripts (JObj [(py ''data'', JObj [(py ''question'',
            JObj [(py ''translatedTitle'', JNull),
                  (py ''translatedContent'', JStr (py ''description (zh)''))])])])
      [py ''data'', py ''question'', py ''translatedContent''] = Inr (JStr (py ''description (zh)''))"
    by (simp add: py_def)
  note t1 = desc_by_problem_id_direct [of "py ''zh-CN''" failing_second_page_server "py ''1''" "[]"]
  note t2 = desc_by_problem_id_direct [of "py ''zh-CN''" endless_server "py ''1''" "[]"]
  note t3 = desc_by_problem_id_direct [of "py ''zh-CN''" demo_server "py ''1''" "[]"]
  have a: "fst (get_leetcode_question_desc_by_problem_id (py ''zh-CN'')
      failing_second_page_server (py ''1'') []) = JStr (py ''No description found'')"
    using t1 r1 by blast
  have b: "fst (get_leetcode_question_desc_by_problem_id (py ''zh-CN'')
      endless_server (py ''1'') []) = JStr (py ''No description found'')"
    using t2 r2 s2 unfolding key by blast
  have c: "fst (get_leetcode_question_desc_by_problem_id (py ''zh-CN'')
      demo_server (py ''1'') []) = JStr (py ''description (zh)'')"
    using t3 r3 s3 unfolding key by blast
  have tr: "snd (get_leetcode_question_desc_by_problem_id (py ''zh-CN'') srv (py ''1'') [])
      = [?rq]" for srv
    using desc_by_problem_id_direct [of "py ''zh-CN''" srv "py ''1''" "[]"] by simp
  show ?thesis
    using a b c tr [of failing_second_page_server] tr [of endless_server] tr [of demo_server]
    by (simp add: prod_eq_iff)
qed

text \<open>
  Claim C7 as stated fails on a shape failure that raises nothing: when the server sends
  \<open>null\<close> for \<open>translatedContent\<close>, the result is \<open>None\<close> and not
  \<open>"No description found"\<close>.
\<close>

theorem desc_by_problem_id_null_counterexample:
  "null_content_server [] (fst (content_query (py ''zh-CN'') (py ''two-sum'')))
     = Inr (JObj [(py ''data'', JObj [(py ''question'',
         JObj [(py ''translatedTitle'', JNull), (py ''translatedContent'', JNull)])])])
   \<and> fst (get_leetcode_question_desc_by_problem_id (py ''zh-CN'') null_content_server
            (py ''two-sum'') []) = JNull
   \<and> JNull \<noteq> JStr (py ''No description found'')"
  by (simp add: get_leetcode_question_desc_by_problem_id_def
      get_leetcode_question_desc_by_slug_def content_query_def post_def
      null_content_server_def py_def)

section \<open>Claims about the identifier normalizer\<close>

text \<open>
  Claim C8. \<open>_folder_name_to_problem_id\<close> is a function of its argument alone, and on a
  folder name that contains none of the substrings \<open>_\<close>, \<open>__\<close>, \<open>JZ_Offer\<close> and
  \<open>Interview\<close>, applying it twice gives the same result as applying it once.
\<close>

theorem normalizer_idempotent_on_normalized:
  assumes "\<not> str_contains (py ''_'') s"
    and "\<not> str_contains (py ''__'') s"
    and "\<not> str_contains (py ''JZ_Offer'') s"
    and "\<not> str_contains (py ''Interview'') s"
  shows "folder_name_to_problem_id (folder_name_to_problem_id s) = folder_name_to_problem_id s"
  using assms by (simp add: normalizer_fixes_clean_names)

theorem normalizer_idempotent_on_normalized_witness:
  "\<not> str_contains (py ''_'') (py ''TwoSum'')
   \<and> \<not> str_contains (py ''__'') (py ''TwoSum'')
   \<and> \<not> str_contains (py ''JZ_Offer'') (py ''TwoSum'')
   \<and> \<not> str_contains (py ''Interview'') (py ''TwoSum'')
   \<and> folder_name_to_problem_id (folder_name_to_problem_id (py ''TwoSum''))
       = folder_name_to_problem_id (py ''TwoSum'')
   \<and> folder_name_to_problem_id (py ''TwoSum'') = py ''TwoSum''"
proof -
  have h1: "\<not> str_contains (py ''_'') (py ''TwoSum'')" by (simp add: py_def)
  have h2: "\<not> str_contains (py ''__'') (py ''TwoSum'')" by (simp add: py_def)
  have h3: "\<not> str_contains (py ''JZ_Offer'') (py ''TwoSum'')" by (simp add: py_def)
  have h4: "\<not> str_contains (py ''Interview'') (py ''TwoSum'')" by (simp add: py_def)
  have once: "folder_name_to_problem_id (py ''TwoSum'') = py ''TwoSum''"
    using h1 h4 by (rule normalizer_fixes_clean_names)
  show ?thesis
    using h1 h2 h3 h4 once normalizer_idempotent_on_normalized [OF h1 h2 h3 h4] by simp
qed

text \<open>
  Claim C9. For every input the result of \<open>_folder_name_to_problem_id\<close> contains no
  underscore, and the \<open>JZ_Offer\<close> replacement never changes the string: when its test is
  reached the underscore-to-space replacement has removed every underscore, so the
  substring \<open>JZ_Offer\<close> cannot be present.
\<close>

theorem normalizer_no_underscore_jz_dead:
  "95 \<notin> set (folder_name_to_problem_id s)
   \<and> \<not> str_contains (py ''JZ_Offer'') (question_id_after_underscores s)
   \<and> replace_if_present (py ''JZ_Offer'') jz_offer_zh (question_id_after_underscores s)
       = question_id_after_underscores s
   \<and> folder_name_to_problem_id s
       = replace_if_present (py ''Interview'') interview_zh (question_id_after_underscores s)"
proof -
  have dead: "replace_if_present (py ''JZ_Offer'') jz_offer_zh (question_id_after_underscores s)
      = question_id_after_underscores s"
    using no_jz_after_underscores by (rule replace_if_present_absent)
  have eq: "folder_name_to_problem_id s
      = replace_if_present (py ''Interview'') interview_zh (question_id_after_underscores s)"
    by (simp add: folder_name_to_problem_id_stages dead)
  have "95 \<notin> set interview_zh" by (simp add: interview_zh_def)
  then have "95 \<notin> set (folder_name_to_problem_id s)"
    unfolding eq using no_underscore_after_underscores by (rule replace_if_present_avoids)
  with dead eq no_jz_after_underscores show ?thesis by simp
qed

theorem normalizer_no_underscore_jz_dead_witness:
  "95 \<notin> set (folder_name_to_problem_id (py ''LCR_JZ_Offer_3''))
   \<and> folder_name_to_problem_id (py ''LCR_JZ_Offer_3'') = py ''JZ Offer 3''"
proof -
  have "folder_name_to_problem_id (py ''LCR_JZ_Offer_3'') = py ''JZ Offer 3''"
    by (simp add: folder_name_to_problem_id_def replace_if_present_def slice_from_def
        py_def Let_def)
  moreover have "95 \<notin> set (folder_name_to_problem_id (py ''LCR_JZ_Offer_3''))"
    using normalizer_no_underscore_jz_dead [of "py ''LCR_JZ_Offer_3''"] by (rule conjunct1)
  ultimately show ?thesis by (rule conjI [rotated])
qed

text \<open>
  Claim C10. \<open>_folder_name_to_problem_id("1_Two_Sum")\<close> is \<open>"Two Sum"\<close>, and on the folder
  name made of U+9762 U+8BD5 U+9898 followed by \<open>_17__01\<close> the result is \<open>"17.01"\<close>: the
  double underscore becomes a dot before single underscores become spaces.
\<close>

theorem normalizer_examples:
  "folder_name_to_problem_id (py ''1_Two_Sum'') = py ''Two Sum''
   \<and> folder_name_to_problem_id (interview_zh @ py ''_17__01'') = py ''17.01''"
  by (simp add: folder_name_to_problem_id_def replace_if_present_def slice_from_def
      interview_zh_def py_def Let_def)

end
